theory Spec2Isabelle
  imports Complex_Main "HOL-Library.Sublist" "HOL-Library.Multiset"
begin

section \<open>Strings\<close>

text \<open>
  Python \<open>str\<close> values are modelled as \<open>string\<close>: lists of characters that stand for
  the code points below 256. The character classes are Python's on that range: \<open>\s\<close>,
  \<open>str.isspace\<close> and \<open>str.strip()\<close> use \<open>is_space\<close> (it holds of the next-line character
  U+0085 and of the no-break space U+00A0 too), \<open>\d\<close> uses \<open>is_digit\<close>.
\<close>

definition is_digit :: "char \<Rightarrow> bool" where
  "is_digit c = (c \<in> set ''0123456789'')"

definition is_space :: "char \<Rightarrow> bool" where
  "is_space c = (c \<in> set [CHR '' '', CHR 0x09, CHR 0x0A, CHR 0x0B, CHR 0x0C, CHR 0x0D,
                            CHR 0x1C, CHR 0x1D, CHR 0x1E, CHR 0x1F, CHR 0x85, CHR 0xA0])"

definition ascii_lower :: "string" where
  "ascii_lower = ''abcdefghijklmnopqrstuvwxyz''"

definition ascii_upper :: "string" where
  "ascii_upper = ''ABCDEFGHIJKLMNOPQRSTUVWXYZ''"

definition is_alpha :: "char \<Rightarrow> bool" where
  "is_alpha c = (c \<in> set (ascii_lower @ ascii_upper))"

definition lower_char :: "char \<Rightarrow> char" where
  "lower_char c = (case map_of (zip ascii_upper ascii_lower) c of Some d \<Rightarrow> d | None \<Rightarrow> c)"

definition lower :: "string \<Rightarrow> string" where
  "lower s = map lower_char s"

definition lstrip :: "string \<Rightarrow> string" where
  "lstrip s = dropWhile is_space s"

definition strip :: "string \<Rightarrow> string" where
  "strip s = rev (dropWhile is_space (rev (dropWhile is_space s)))"

text \<open>\<open>needle in hay\<close> on strings: \<open>needle\<close> occurs as a contiguous substring.\<close>

fun str_in :: "string \<Rightarrow> string \<Rightarrow> bool" where
  "str_in needle [] = (needle = [])"
| "str_in needle (c # cs) = (prefix needle (c # cs) \<or> str_in needle cs)"

text \<open>\<open>s.split(sep)\<close> for a one-character separator: always at least one piece.\<close>

fun split_on :: "char \<Rightarrow> string \<Rightarrow> string list" where
  "split_on sep [] = [[]]"
| "split_on sep (c # cs) =
     (case split_on sep cs of
        [] \<Rightarrow> (if c = sep then [[], []] else [[c]])
      | p # ps \<Rightarrow> (if c = sep then [] # p # ps else (c # p) # ps))"

text \<open>\<open>sep.join(parts)\<close> for a separator string.\<close>

fun join :: "string \<Rightarrow> string list \<Rightarrow> string" where
  "join sep [] = []"
| "join sep [p] = p"
| "join sep (p # q # ps) = p @ sep @ join sep (q # ps)"

text \<open>\<open>s.replace("Z", "+00:00")\<close>: every occurrence of the letter is replaced.\<close>

definition replace_Z :: "string \<Rightarrow> string" where
  "replace_Z s = concat (map (\<lambda>c. if c = CHR ''Z'' then ''+00:00'' else [c]) s)"

text \<open>\<open>s.split(c, 1)\<close> when \<open>c in s\<close>: the text before and after the first \<open>c\<close>.\<close>

definition cut_at :: "char \<Rightarrow> string \<Rightarrow> string \<times> string" where
  "cut_at c s = (takeWhile (\<lambda>x. x \<noteq> c) s, drop 1 (dropWhile (\<lambda>x. x \<noteq> c) s))"

section \<open>Exceptions\<close>

text \<open>
  Every raise of the program or of a library call it makes is a value of \<open>exn\<close>; a
  computation that may raise returns \<open>exn + 'a\<close> with \<open>Inl\<close> the exception.
\<close>

datatype exn = ValueError | TypeError | AttributeError | OverflowError | RequestException

section \<open>urllib.parse\<close>

text \<open>
  \<open>urlparse\<close>, \<open>urlunparse\<close> and \<open>urljoin\<close> belong to Python's standard library. They
  are modelled after CPython 3.11's \<open>urllib/parse.py\<close>. The validation of a netloc beyond
  the unbalanced-bracket test (bracketed host syntax, NFKC check of non-ASCII netlocs)
  varies between releases and is the parameter \<open>netloc_rejected\<close>: it says for which
  netlocs with a bracket or a non-ASCII character the installed library raises ValueError.
\<close>

record parse_result =
  scheme :: string
  netloc :: string
  path :: string
  params :: string
  query :: string
  fragment :: string

definition scheme_chars :: "string" where
  "scheme_chars = ascii_lower @ ascii_upper @ ''0123456789'' @ ''+-.''"

definition uses_relative :: "string list" where
  "uses_relative = ['''', ''ftp'', ''http'', ''gopher'', ''nntp'', ''imap'', ''wais'', ''file'',
     ''https'', ''shttp'', ''mms'', ''prospero'', ''rtsp'', ''rtspu'', ''sftp'', ''svn'',
     ''svn+ssh'', ''ws'', ''wss'']"

definition uses_netloc :: "string list" where
  "uses_netloc = ['''', ''ftp'', ''http'', ''gopher'', ''nntp'', ''telnet'', ''imap'', ''wais'',
     ''file'', ''mms'', ''https'', ''shttp'', ''snews'', ''prospero'', ''rtsp'', ''rtspu'',
     ''rsync'', ''svn'', ''svn+ssh'', ''sftp'', ''nfs'', ''git'', ''git+ssh'', ''ws'', ''wss'']"

definition uses_params :: "string list" where
  "uses_params = ['''', ''ftp'', ''hdl'', ''prospero'', ''http'', ''imap'', ''https'', ''shttp'',
     ''rtsp'', ''rtspu'', ''sip'', ''sips'', ''mms'', ''sftp'', ''tel'']"

text \<open>Leading C0 control characters and spaces are dropped, tab, CR and LF removed.\<close>

definition c0_or_space :: "char \<Rightarrow> bool" where
  "c0_or_space c = (of_char c \<le> (32::nat))"

definition clean_url :: "string \<Rightarrow> string" where
  "clean_url url =
     filter (\<lambda>c. c \<notin> set [CHR 0x09, CHR 0x0D, CHR 0x0A]) (dropWhile c0_or_space url)"

text \<open>The scheme, if the text before the first colon is one, and the rest.\<close>

definition split_scheme :: "string \<Rightarrow> string \<Rightarrow> string \<times> string" where
  "split_scheme dflt url =
     (if CHR '':'' \<in> set url \<and> url \<noteq> [] \<and> is_alpha (hd url)
         \<and> (\<forall>c \<in> set (takeWhile (\<lambda>x. x \<noteq> CHR '':'') url). c \<in> set scheme_chars)
      then (lower (takeWhile (\<lambda>x. x \<noteq> CHR '':'') url),
            drop 1 (dropWhile (\<lambda>x. x \<noteq> CHR '':'') url))
      else (dflt, url))"

text \<open>\<open>_splitnetloc(url, 2)\<close>: the netloc ends at the first of \<open>/ ? #\<close>.\<close>

definition split_netloc :: "string \<Rightarrow> string \<times> string" where
  "split_netloc url =
     (if take 2 url = ''//''
      then (takeWhile (\<lambda>c. c \<notin> set ''/?#'') (drop 2 url),
            dropWhile (\<lambda>c. c \<notin> set ''/?#'') (drop 2 url))
      else ('''', url))"

definition unbalanced_brackets :: "string \<Rightarrow> bool" where
  "unbalanced_brackets n =
     ((CHR ''['' \<in> set n \<and> CHR '']'' \<notin> set n) \<or> (CHR '']'' \<in> set n \<and> CHR ''['' \<notin> set n))"

text \<open>Only a netloc with a bracket or a non-ASCII character is validated further.\<close>

definition needs_check :: "string \<Rightarrow> bool" where
  "needs_check n = (\<exists>c \<in> set n. c = CHR ''['' \<or> c = CHR '']'' \<or> (128::nat) \<le> of_char c)"

text \<open>\<open>_splitparams\<close>: the parameters of the last path segment.\<close>

definition last_segment :: "string \<Rightarrow> string" where
  "last_segment p = rev (takeWhile (\<lambda>c. c \<noteq> CHR ''/'') (rev p))"

definition split_params :: "string \<Rightarrow> string \<times> string" where
  "split_params p =
     (let seg = last_segment p; dir = take (length p - length seg) p
      in if CHR '';'' \<in> set seg
         then (dir @ fst (cut_at CHR '';'' seg), snd (cut_at CHR '';'' seg))
         else (p, ''''))"

definition urlparse :: "(string \<Rightarrow> bool) \<Rightarrow> string \<Rightarrow> string \<Rightarrow> exn + parse_result" where
  "urlparse netloc_rejected url0 dflt =
     (let (sch, u1) = split_scheme dflt (clean_url url0);
          (nl, u2) = split_netloc u1
      in if unbalanced_brackets nl \<or> (needs_check nl \<and> netloc_rejected nl)
         then Inl ValueError
         else
           let (u3, frag) = (if CHR ''#'' \<in> set u2 then cut_at CHR ''#'' u2 else (u2, ''''));
               (u4, qry) = (if CHR ''?'' \<in> set u3 then cut_at CHR ''?'' u3 else (u3, ''''));
               (pth, prm) = (if sch \<in> set uses_params \<and> CHR '';'' \<in> set u4
                             then split_params u4 else (u4, ''''))
           in Inr \<lparr>scheme = sch, netloc = nl, path = pth, params = prm,
                   query = qry, fragment = frag\<rparr>)"

definition urlunparse :: "parse_result \<Rightarrow> string" where
  "urlunparse r =
     (let u0 = (if params r \<noteq> '''' then path r @ '';'' @ params r else path r);
          u1 = (if netloc r \<noteq> '''' \<or> (scheme r \<noteq> '''' \<and> scheme r \<in> set uses_netloc
                                        \<and> take 2 u0 \<noteq> ''//'')
                then ''//'' @ netloc r @ (if u0 \<noteq> '''' \<and> take 1 u0 \<noteq> ''/'' then ''/'' @ u0 else u0)
                else u0);
          u2 = (if scheme r \<noteq> '''' then scheme r @ '':'' @ u1 else u1);
          u3 = (if query r \<noteq> '''' then u2 @ ''?'' @ query r else u2)
      in if fragment r \<noteq> '''' then u3 @ ''#'' @ fragment r else u3)"

text \<open>Removal of dot segments: \<open>..\<close> pops the last kept segment, \<open>.\<close> is skipped.\<close>

fun resolve_dots :: "string list \<Rightarrow> string list \<Rightarrow> string list" where
  "resolve_dots acc [] = acc"
| "resolve_dots acc (seg # segs) =
     (if seg = ''..'' then resolve_dots (butlast acc) segs
      else if seg = ''.'' then resolve_dots acc segs
      else resolve_dots (acc @ [seg]) segs)"

text \<open>\<open>segments[1:-1] = filter(None, segments[1:-1])\<close>: inner empty segments go.\<close>

definition drop_inner_empty :: "string list \<Rightarrow> string list" where
  "drop_inner_empty segs =
     (if length segs < 2 then segs
      else hd segs # filter (\<lambda>s. s \<noteq> '''') (butlast (tl segs)) @ [last segs])"

definition urljoin :: "(string \<Rightarrow> bool) \<Rightarrow> string \<Rightarrow> string \<Rightarrow> exn + string" where
  "urljoin netloc_rejected base url =
     (if base = '''' then Inr url
      else if url = '''' then Inr base
      else case urlparse netloc_rejected base '''' of
        Inl e \<Rightarrow> Inl e
      | Inr b \<Rightarrow>
         (case urlparse netloc_rejected url (scheme b) of
            Inl e \<Rightarrow> Inl e
          | Inr u \<Rightarrow>
             if scheme u \<noteq> scheme b \<or> scheme u \<notin> set uses_relative then Inr url
             else if scheme u \<in> set uses_netloc \<and> netloc u \<noteq> '''' then Inr (urlunparse u)
             else
               let nl = (if scheme u \<in> set uses_netloc then netloc b else netloc u)
               in if path u = '''' \<and> params u = ''''
                  then Inr (urlunparse (u\<lparr>netloc := nl, path := path b, params := params b,
                              query := (if query u = '''' then query b else query u)\<rparr>))
                  else
                    let base_parts = (let bp = split_on CHR ''/'' (path b)
                                      in if last bp \<noteq> '''' then butlast bp else bp);
                        segments = (if take 1 (path u) = ''/'' then split_on CHR ''/'' (path u)
                                    else drop_inner_empty (base_parts @ split_on CHR ''/'' (path u)));
                        resolved = resolve_dots [] segments
                                   @ (if last segments \<in> {''.'', ''..''} then [''''] else []);
                        joined = join ''/'' resolved
                    in Inr (urlunparse (u\<lparr>netloc := nl,
                              path := (if joined = '''' then ''/'' else joined)\<rparr>))))"

section \<open>Documents, JSON values, time\<close>

text \<open>
  A BeautifulSoup tree: a tag with its attributes and children, a text string, or a
  string that is not page text (a comment, the content of a script or style element).
  The soup itself is the root tag, named \<open>[document]\<close>.
\<close>

datatype node = Tag string "(string \<times> string) list" "node list" | Text string | Raw string

text \<open>All descendants in document order; with each, the names of its ancestors.\<close>

fun descendants :: "string list \<Rightarrow> node \<Rightarrow> (string list \<times> node) list" where
  "descendants anc (Tag n as cs) = concat (map (\<lambda>c. (anc @ [n], c) # descendants (anc @ [n]) c) cs)"
| "descendants anc (Text t) = []"
| "descendants anc (Raw t) = []"

fun is_tag :: "string \<Rightarrow> node \<Rightarrow> bool" where
  "is_tag name (Tag n as cs) = (n = name)"
| "is_tag name _ = False"

text \<open>\<open>tag.get(key)\<close>: the attribute's value, None when the tag has no such attribute.\<close>

fun get_attr :: "node \<Rightarrow> string \<Rightarrow> string option" where
  "get_attr (Tag n as cs) key = map_of as key"
| "get_attr _ key = None"

definition find_all :: "node \<Rightarrow> string \<Rightarrow> node list" where
  "find_all soup name = filter (is_tag name) (map snd (descendants [] soup))"

text \<open>\<open>soup.find(name, attrs={key: v})\<close>: the first such tag whose attribute equals \<open>v\<close>.\<close>

definition find_with :: "node \<Rightarrow> string \<Rightarrow> string \<Rightarrow> string \<Rightarrow> node option" where
  "find_with soup name key v =
     (case filter (\<lambda>t. get_attr t key = Some v) (find_all soup name) of
        [] \<Rightarrow> None | t # _ \<Rightarrow> Some t)"

definition find_first :: "node \<Rightarrow> string \<Rightarrow> node option" where
  "find_first soup name = (case find_all soup name of [] \<Rightarrow> None | t # _ \<Rightarrow> Some t)"

text \<open>\<open>tag.string\<close>: the single string below a chain of only children, else None.\<close>

fun tag_string :: "node \<Rightarrow> string option" where
  "tag_string (Tag n as [c]) = tag_string c"
| "tag_string (Tag n as cs) = None"
| "tag_string (Text t) = Some t"
| "tag_string (Raw t) = Some t"

fun text_of :: "node \<Rightarrow> string list" where
  "text_of (Text t) = [t]"
| "text_of _ = []"

text \<open>
  \<open>tag.get_text(sep, strip=True)\<close>: the page-text strings below the tag, each stripped,
  the empty ones left out, joined with \<open>sep\<close>.
\<close>

definition get_text :: "node \<Rightarrow> string \<Rightarrow> string" where
  "get_text t sep =
     join sep (filter (\<lambda>x. x \<noteq> [])
                 (map strip (concat (map (\<lambda>p. text_of (snd p)) (descendants [] t)))))"

text \<open>Python floats, as far as the program tells them apart.\<close>

datatype pyfloat = Finite real | PosInf | NegInf | NaN

datatype json = JNull | JBool bool | JInt int | JFloat pyfloat | JStr string
  | JArr "json list" | JObj "(string \<times> json) list"

text \<open>Truth value of a JSON value as a Python object (\<open>if x:\<close>, \<open>x or y\<close>).\<close>

fun truthy :: "json \<Rightarrow> bool" where
  "truthy JNull = False"
| "truthy (JBool b) = b"
| "truthy (JInt i) = (i \<noteq> 0)"
| "truthy (JFloat f) = (f \<noteq> Finite 0)"
| "truthy (JStr s) = (s \<noteq> [])"
| "truthy (JArr xs) = (xs \<noteq> [])"
| "truthy (JObj kvs) = (kvs \<noteq> [])"

definition py_or :: "json \<Rightarrow> json \<Rightarrow> json" where
  "py_or a b = (if truthy a then a else b)"

text \<open>\<open>d.get(key)\<close> on a dict: None (here \<open>JNull\<close>) for a missing key.\<close>

definition dict_get :: "(string \<times> json) list \<Rightarrow> string \<Rightarrow> json" where
  "dict_get kvs key = (case map_of kvs key of None \<Rightarrow> JNull | Some v \<Rightarrow> v)"

text \<open>
  A datetime: \<open>wall\<close> is the wall-clock reading in microseconds since 0001-01-01T00:00,
  \<open>utcoff\<close> what \<open>utcoffset()\<close> returns in microseconds (None for a naive datetime).
  The text \<open>isoformat()\<close> writes for an aware datetime is represented by the datetime
  with that wall clock and that fixed offset, which is what \<open>fromisoformat\<close> reads back
  from it.
\<close>

record datetime =
  wall :: int
  utcoff :: "int option"

definition DAY :: int where
  "DAY = 86400000000"

text \<open>datetime.min is ordinal 1, datetime.max the last microsecond of ordinal 3652059.\<close>

definition in_range :: "int \<Rightarrow> bool" where
  "in_range w = (0 \<le> w \<and> w < 3652059 * DAY)"

definition date_of :: "datetime \<Rightarrow> int" where
  "date_of d = wall d div DAY + 1"

definition is_leap :: "int \<Rightarrow> bool" where
  "is_leap y = (y mod 4 = 0 \<and> (y mod 100 \<noteq> 0 \<or> y mod 400 = 0))"

definition days_in_month :: "int \<Rightarrow> int \<Rightarrow> int" where
  "days_in_month y m =
     (if m = 2 then (if is_leap y then 29 else 28)
      else if m \<in> {4, 6, 9, 11} then 30 else 31)"

definition days_before_year :: "int \<Rightarrow> int" where
  "days_before_year y = (y - 1) * 365 + (y - 1) div 4 - (y - 1) div 100 + (y - 1) div 400"

definition days_before_month :: "int \<Rightarrow> int \<Rightarrow> int" where
  "days_before_month y m = sum_list (map (days_in_month y) [1..m - 1])"

text \<open>\<open>datetime(y, m, d)\<close>: midnight of a valid date, ValueError otherwise.\<close>

definition make_date :: "int \<Rightarrow> int \<Rightarrow> int \<Rightarrow> exn + int" where
  "make_date y m d =
     (if 1 \<le> y \<and> y \<le> 9999 \<and> 1 \<le> m \<and> m \<le> 12 \<and> 1 \<le> d \<and> d \<le> days_in_month y m
      then Inr ((days_before_year y + days_before_month y m + d - 1) * DAY)
      else Inl ValueError)"

datatype zone = UTC | KST

section \<open>The environment\<close>

text \<open>
  What the program obtains from outside its own source: the network, the HTML parser,
  the clock, the time-zone database, the parsers of the standard library, and the
  iteration order of a string set (which follows the hash values of the process).
  \<^item> \<open>http_get\<close>: \<open>requests.get(url, ...)\<close> followed by \<open>raise_for_status()\<close>; the text of
    the response, or the exception raised;
  \<^item> \<open>html_parse\<close>: \<open>BeautifulSoup(text, "html.parser")\<close>;
  \<^item> \<open>json_loads\<close>, \<open>fromisoformat\<close>, \<open>py_int\<close>, \<open>py_float\<close>: the parsers, with the
    exception they raise on text they refuse;
  \<^item> \<open>py_str\<close>: \<open>str(x)\<close> of a JSON value;
  \<^item> \<open>kst_offset\<close>: the UTC offset of Asia/Seoul at an instant (microseconds since
    0001-01-01T00:00 UTC); \<open>kst_local_offset\<close>: the same for a wall-clock time in Seoul;
    \<open>local_offset\<close>: the offset of the system's zone for a wall-clock time;
  \<^item> \<open>set_order\<close>: \<open>list(s)\<close> for a set whose elements were added in the given order;
  \<^item> \<open>now_kst\<close>: \<open>datetime.now(KST)\<close> as \<open>crawl_today\<close> reads it; \<open>now_kst_reply\<close>: the
    same clock as the handler reads it again when it writes the response;
  \<^item> \<open>netloc_rejected\<close>: the netloc validation of \<open>urlparse\<close>.
\<close>

record env =
  http_get :: "string \<Rightarrow> exn + string"
  html_parse :: "string \<Rightarrow> node"
  json_loads :: "string \<Rightarrow> exn + json"
  fromisoformat :: "string \<Rightarrow> exn + datetime"
  py_int :: "string \<Rightarrow> exn + int"
  py_float :: "string \<Rightarrow> exn + pyfloat"
  py_str :: "json \<Rightarrow> string"
  kst_offset :: "int \<Rightarrow> int"
  kst_local_offset :: "int \<Rightarrow> int"
  local_offset :: "int \<Rightarrow> exn + int"
  set_order :: "string list \<Rightarrow> string list"
  now_kst :: datetime
  now_kst_reply :: datetime
  netloc_rejected :: "string \<Rightarrow> bool"

text \<open>\<open>try: body except Exception: handler\<close>.\<close>

definition try_except :: "exn + 'a \<Rightarrow> (exn \<Rightarrow> exn + 'a) \<Rightarrow> exn + 'a" where
  "try_except body handler = (case body of Inl e \<Rightarrow> handler e | Inr v \<Rightarrow> Inr v)"

text \<open>Sequencing of computations that may raise.\<close>

definition bind :: "exn + 'a \<Rightarrow> ('a \<Rightarrow> exn + 'b) \<Rightarrow> exn + 'b" where
  "bind m f = (case m of Inl e \<Rightarrow> Inl e | Inr v \<Rightarrow> f v)"

text \<open>
  \<open>dt.astimezone(tz)\<close> for \<open>tz\<close> UTC or Asia/Seoul: the instant is the wall clock less
  the offset (the system zone's for a naive datetime), the result that instant's wall
  clock in \<open>tz\<close>; OverflowError when either leaves the range of datetime.
\<close>

definition astimezone :: "env \<Rightarrow> datetime \<Rightarrow> zone \<Rightarrow> exn + datetime" where
  "astimezone E d z =
     bind (case utcoff d of Some off \<Rightarrow> Inr off | None \<Rightarrow> local_offset E (wall d))
       (\<lambda>off. let inst = wall d - off
              in if \<not> in_range inst then Inl OverflowError
                 else let off' = (case z of UTC \<Rightarrow> 0 | KST \<Rightarrow> kst_offset E inst)
                      in if \<not> in_range (inst + off') then Inl OverflowError
                         else Inr \<lparr>wall = inst + off', utcoff = Some off'\<rparr>)"

section \<open>Link discovery\<close>

definition CATEGORY_URL :: "string" where
  "CATEGORY_URL = ''https://techcrunch.com/category/artificial-intelligence/''"

definition fetch :: "env \<Rightarrow> string \<Rightarrow> exn + string" where
  "fetch E url = http_get E url"

text \<open>\<open>re.search(r"/20\d{2}/\d{2}/", path)\<close>: the pattern occurs somewhere in the path.\<close>

fun year_month_at :: "string \<Rightarrow> bool" where
  "year_month_at (s # t # z # y1 # y2 # s2 # m1 # m2 # s3 # rest) =
     (s = CHR ''/'' \<and> t = CHR ''2'' \<and> z = CHR ''0'' \<and> is_digit y1 \<and> is_digit y2
      \<and> s2 = CHR ''/'' \<and> is_digit m1 \<and> is_digit m2 \<and> s3 = CHR ''/'')"
| "year_month_at _ = False"

fun search_year_month :: "string \<Rightarrow> bool" where
  "search_year_month [] = False"
| "search_year_month (c # cs) = (year_month_at (c # cs) \<or> search_year_month cs)"

text \<open>
  \<open>is_article_url\<close>: the whole body is inside \<open>try\<close>, and any exception gives False.
\<close>

definition is_article_url :: "env \<Rightarrow> string \<Rightarrow> bool" where
  "is_article_url E href =
     (case urlparse (netloc_rejected E) href '''' of
        Inl e \<Rightarrow> False
      | Inr u \<Rightarrow> (str_in ''techcrunch.com'' (netloc u) \<or> netloc u = '''')
                 \<and> search_year_month (path u))"

text \<open>\<open>normalize_link\<close> joins with the module constant, whatever page was fetched.\<close>

definition normalize_link :: "env \<Rightarrow> string \<Rightarrow> exn + string" where
  "normalize_link E href = urljoin (netloc_rejected E) CATEGORY_URL href"

text \<open>
  The set \<open>links\<close> is kept as the list of its elements in the order they were added;
  \<open>links.add(x)\<close> leaves it unchanged when \<open>x\<close> is already there.
\<close>

definition set_add :: "string list \<Rightarrow> string \<Rightarrow> string list" where
  "set_add links x = (if x \<in> set links then links else links @ [x])"

text \<open>
  \<open>tag.find_all("a", href=True)\<close> and then \<open>a["href"]\<close> of each: the hrefs of the
  anchors below a tag that have one, in document order.
\<close>

definition anchor_hrefs :: "node \<Rightarrow> string list" where
  "anchor_hrefs t = List.map_filter (\<lambda>a. get_attr a ''href'') (find_all t ''a'')"

text \<open>\<open>h3.find("a", href=True)\<close> and then \<open>a["href"]\<close>: the first of them.\<close>

definition first_href :: "node \<Rightarrow> string option" where
  "first_href h3 = (case anchor_hrefs h3 of [] \<Rightarrow> None | h # _ \<Rightarrow> Some h)"

text \<open>First loop: the first anchor inside each \<open>h3\<close>.\<close>

fun primary_pass :: "env \<Rightarrow> node list \<Rightarrow> string list \<Rightarrow> exn + string list" where
  "primary_pass E [] links = Inr links"
| "primary_pass E (h3 # rest) links =
     (case first_href h3 of
        None \<Rightarrow> primary_pass E rest links
      | Some href \<Rightarrow>
          if is_article_url E href
          then bind (normalize_link E href) (\<lambda>u. primary_pass E rest (set_add links u))
          else primary_pass E rest links)"

text \<open>Second loop: every anchor with an href, until \<open>limit\<close> links are in the set.\<close>

fun secondary_pass :: "env \<Rightarrow> string list \<Rightarrow> int \<Rightarrow> string list \<Rightarrow> exn + string list" where
  "secondary_pass E [] limit links = Inr links"
| "secondary_pass E (href # rest) limit links =
     bind (if is_article_url E href
           then bind (normalize_link E href) (\<lambda>u. Inr (set_add links u))
           else Inr links)
       (\<lambda>links'. if int (length links') \<ge> limit then Inr links'
                  else secondary_pass E rest limit links')"

text \<open>\<open>xs[:n]\<close>: a negative \<open>n\<close> counts from the end.\<close>

definition slice_to :: "int \<Rightarrow> 'a list \<Rightarrow> 'a list" where
  "slice_to n xs = (if 0 \<le> n then take (nat n) xs else take (length xs - nat (- n)) xs)"

text \<open>The two loops of \<open>get_article_links\<close>: the set \<open>links\<close> before it is listed.\<close>

definition collect_links :: "env \<Rightarrow> node \<Rightarrow> int \<Rightarrow> exn + string list" where
  "collect_links E soup limit =
     bind (primary_pass E (find_all soup ''h3'') []) (\<lambda>links.
       if int (length links) < limit
       then secondary_pass E (anchor_hrefs soup) limit links
       else Inr links)"

definition get_article_links :: "env \<Rightarrow> string \<Rightarrow> int \<Rightarrow> exn + string list" where
  "get_article_links E category_url limit =
     bind (fetch E category_url) (\<lambda>html.
       bind (collect_links E (html_parse E html) limit) (\<lambda>links.
         Inr (slice_to limit (set_order E links))))"

section \<open>Publication time\<close>

definition parse_iso :: "env \<Rightarrow> string \<Rightarrow> exn + datetime option" where
  "parse_iso E s = bind (fromisoformat E (replace_Z s)) (\<lambda>d. Inr (Some d))"

definition get_meta_datetime :: "env \<Rightarrow> node \<Rightarrow> string \<Rightarrow> exn + datetime option" where
  "get_meta_datetime E soup prop =
     (case (case find_with soup ''meta'' ''property'' prop of
              Some t \<Rightarrow> Some t
            | None \<Rightarrow> find_with soup ''meta'' ''name'' prop) of
        None \<Rightarrow> Inr None
      | Some tag \<Rightarrow>
          (case get_attr tag ''content'' of
             None \<Rightarrow> Inr None
           | Some c \<Rightarrow> if c = '''' then Inr None
                       else try_except (parse_iso E c) (\<lambda>e. Inr None)))"

definition article_types :: "string list" where
  "article_types = [''NewsArticle'', ''Article'', ''BlogPosting'']"

text \<open>\<open>x in {...}\<close> hashes \<open>x\<close>: TypeError for a list or a dict.\<close>

fun type_recognised :: "json \<Rightarrow> exn + bool" where
  "type_recognised (JStr s) = Inr (s \<in> set article_types)"
| "type_recognised (JArr xs) = Inl TypeError"
| "type_recognised (JObj kvs) = Inl TypeError"
| "type_recognised _ = Inr False"

definition candidates :: "json \<Rightarrow> json list" where
  "candidates data = (case data of JArr xs \<Rightarrow> xs | _ \<Rightarrow> [data])"

text \<open>
  The inner loop of \<open>get_ldjson_datetime\<close>: the first object of a recognised type with
  a date decides, by returning the parsed date or by raising.
\<close>

fun scan_dates :: "env \<Rightarrow> json list \<Rightarrow> exn + datetime option" where
  "scan_dates E [] = Inr None"
| "scan_dates E (JObj kvs # rest) =
     bind (type_recognised (dict_get kvs ''@type'')) (\<lambda>r.
       if r then
         (let dp = py_or (dict_get kvs ''datePublished'') (dict_get kvs ''dateCreated'')
          in if truthy dp
             then (case dp of JStr s \<Rightarrow> parse_iso E s | _ \<Rightarrow> Inl AttributeError)
             else scan_dates E rest)
       else scan_dates E rest)"
| "scan_dates E (obj # rest) = scan_dates E rest"

text \<open>\<open>json.loads(s.string or "")\<close>.\<close>

definition script_json :: "env \<Rightarrow> node \<Rightarrow> exn + json" where
  "script_json E s = json_loads E (case tag_string s of None \<Rightarrow> '''' | Some t \<Rightarrow> t)"

text \<open>The outer loop: an exception in a script block moves on to the next block.\<close>

fun ldjson_datetime_loop :: "env \<Rightarrow> node list \<Rightarrow> exn + datetime option" where
  "ldjson_datetime_loop E [] = Inr None"
| "ldjson_datetime_loop E (s # rest) =
     bind (try_except (bind (script_json E s) (\<lambda>data. scan_dates E (candidates data)))
             (\<lambda>e. Inr None))
       (\<lambda>r. case r of Some d \<Rightarrow> Inr (Some d) | None \<Rightarrow> ldjson_datetime_loop E rest)"

definition ldjson_scripts :: "node \<Rightarrow> node list" where
  "ldjson_scripts soup =
     filter (\<lambda>s. get_attr s ''type'' = Some ''application/ld+json'') (find_all soup ''script'')"

definition get_ldjson_datetime :: "env \<Rightarrow> node \<Rightarrow> exn + datetime option" where
  "get_ldjson_datetime E soup = ldjson_datetime_loop E (ldjson_scripts soup)"

definition month_names :: "string list" where
  "month_names = [''January'', ''February'', ''March'', ''April'', ''May'', ''June'', ''July'',
     ''August'', ''September'', ''October'', ''November'', ''December'']"

text \<open>
  The pattern of \<open>parse_human_datetime\<close> matched at the start of a text, after the month
  name: \<open>\s+\d{1,2},\s+\d{4}\<close>. The result is the day and the year as written.
\<close>

definition match_day_year :: "string \<Rightarrow> (string \<times> string) option" where
  "match_day_year s =
     (let s1 = dropWhile is_space s;
          ds = takeWhile is_digit s1;
          s2 = dropWhile is_digit s1;
          s3 = dropWhile is_space (drop 1 s2);
          ys = take 4 s3
      in if takeWhile is_space s \<noteq> [] \<and> length ds \<in> {1, 2} \<and> take 1 s2 = '',''
            \<and> takeWhile is_space (drop 1 s2) \<noteq> [] \<and> length ys = 4 \<and> list_all is_digit ys
         then Some (ds, ys) else None)"

fun match_month :: "string list \<Rightarrow> int \<Rightarrow> string \<Rightarrow> (int \<times> string \<times> string) option" where
  "match_month [] i s = None"
| "match_month (m # ms) i s =
     (case (if prefix m s then match_day_year (drop (length m) s) else None) of
        Some (ds, ys) \<Rightarrow> Some (i, ds, ys)
      | None \<Rightarrow> match_month ms (i + 1) s)"

text \<open>\<open>re.search\<close>: the leftmost position where the pattern matches.\<close>

fun search_date :: "string \<Rightarrow> (int \<times> string \<times> string) option" where
  "search_date [] = None"
| "search_date (c # cs) =
     (case match_month month_names 1 (c # cs) of
        Some r \<Rightarrow> Some r
      | None \<Rightarrow> search_date cs)"

definition digit_val :: "char \<Rightarrow> int" where
  "digit_val c = (case map_of (zip ''0123456789'' [0, 1, 2, 3, 4, 5, 6, 7, 8, 9]) c of
                    Some v \<Rightarrow> v | None \<Rightarrow> 0)"

definition digits_val :: "string \<Rightarrow> int" where
  "digits_val s = foldl (\<lambda>a c. 10 * a + digit_val c) 0 s"

text \<open>
  \<open>datetime.strptime(m.group(0), "%B %d, %Y")\<close> on a text the pattern matched, with
  English month names: ValueError unless the day and the year make a date.
\<close>

definition strptime :: "int \<Rightarrow> string \<Rightarrow> string \<Rightarrow> exn + datetime" where
  "strptime m ds ys =
     bind (make_date (digits_val ys) m (digits_val ds)) (\<lambda>w. Inr \<lparr>wall = w, utcoff = None\<rparr>)"

definition parse_human_datetime :: "string \<Rightarrow> exn + datetime option" where
  "parse_human_datetime text =
     (case search_date text of
        None \<Rightarrow> Inr None
      | Some (m, ds, ys) \<Rightarrow>
          try_except (bind (strptime m ds ys) (\<lambda>d. Inr (Some (d\<lparr>utcoff := Some 0\<rparr>))))
            (\<lambda>e. Inr None))"

definition get_time_tag_datetime :: "env \<Rightarrow> node \<Rightarrow> exn + datetime option" where
  "get_time_tag_datetime E soup =
     (case find_first soup ''time'' of
        None \<Rightarrow> Inr None
      | Some t \<Rightarrow>
          bind (case get_attr t ''datetime'' of
                  None \<Rightarrow> Inr None
                | Some v \<Rightarrow> if v = '''' then Inr None
                            else try_except (parse_iso E v) (\<lambda>e. Inr None))
            (\<lambda>r. case r of
                    Some d \<Rightarrow> Inr (Some d)
                  | None \<Rightarrow> if get_text t '''' \<noteq> ''''
                            then parse_human_datetime (get_text t '' '')
                            else Inr None))"

definition get_text_datetime_fallback :: "env \<Rightarrow> node \<Rightarrow> exn + datetime option" where
  "get_text_datetime_fallback E soup = parse_human_datetime (get_text soup '' '')"

text \<open>\<open>a or b\<close> on optional datetimes: \<open>b\<close> is evaluated only when \<open>a\<close> is None.\<close>

definition or_else :: "exn + 'a option \<Rightarrow> exn + 'a option \<Rightarrow> exn + 'a option" where
  "or_else a b = bind a (\<lambda>r. case r of Some v \<Rightarrow> Inr (Some v) | None \<Rightarrow> b)"

text \<open>The value of \<open>published_dt\<close> in \<open>parse_article\<close>.\<close>

definition published_dt :: "env \<Rightarrow> node \<Rightarrow> exn + datetime option" where
  "published_dt E soup =
     or_else (get_meta_datetime E soup ''article:published_time'')
       (or_else (get_ldjson_datetime E soup)
          (or_else (get_time_tag_datetime E soup)
             (get_text_datetime_fallback E soup)))"

section \<open>Article body\<close>

text \<open>The inner loop of \<open>get_ldjson_article_body\<close>; \<open>JNull\<close> stands for None.\<close>

fun scan_bodies :: "json list \<Rightarrow> exn + json" where
  "scan_bodies [] = Inr JNull"
| "scan_bodies (JObj kvs # rest) =
     bind (type_recognised (dict_get kvs ''@type'')) (\<lambda>r.
       if r \<and> truthy (dict_get kvs ''articleBody'')
       then Inr (dict_get kvs ''articleBody'')
       else scan_bodies rest)"
| "scan_bodies (obj # rest) = scan_bodies rest"

fun ldjson_body_loop :: "env \<Rightarrow> node list \<Rightarrow> exn + json" where
  "ldjson_body_loop E [] = Inr JNull"
| "ldjson_body_loop E (s # rest) =
     bind (try_except (bind (script_json E s) (\<lambda>data. scan_bodies (candidates data)))
             (\<lambda>e. Inr JNull))
       (\<lambda>r. if r \<noteq> JNull then Inr r else ldjson_body_loop E rest)"

definition get_ldjson_article_body :: "env \<Rightarrow> node \<Rightarrow> exn + json" where
  "get_ldjson_article_body E soup = ldjson_body_loop E (ldjson_scripts soup)"

definition bad_parents :: "string list" where
  "bad_parents = [''aside'', ''figcaption'', ''nav'', ''footer'']"

text \<open>
  \<open>extract_paragraphs\<close>: the paragraphs below the first \<open>article\<close> tag (below the soup
  when there is none) that have none of the excluded tags among their ancestors, and
  whose text has two characters or more.
\<close>

definition extract_paragraphs :: "node \<Rightarrow> string" where
  "extract_paragraphs soup =
     (let below = (case filter (\<lambda>p. is_tag ''article'' (snd p)) (descendants [] soup) of
                     [] \<Rightarrow> descendants [] soup
                   | (anc, article) # _ \<Rightarrow> descendants anc article);
          ps = filter (\<lambda>p. is_tag ''p'' (snd p) \<and> \<not> list_ex (\<lambda>a. a \<in> set bad_parents) (fst p)) below;
          txts = map (\<lambda>p. get_text (snd p) '' '') ps
      in join [CHR 0x0A, CHR 0x0A] (filter (\<lambda>t. 2 \<le> length t) txts))"

section \<open>Article extraction\<close>

text \<open>
  The dictionary \<open>parse_article\<close> returns. The two timestamps are the ISO texts of the
  two conversions, represented as said above; None when no date was found.
\<close>

record article =
  url :: string
  title :: string
  published_utc :: "datetime option"
  published_kst :: "datetime option"
  body :: string

text \<open>\<open>published_dt.astimezone(tz).isoformat() if published_dt else None\<close>.\<close>

definition iso_in :: "env \<Rightarrow> datetime option \<Rightarrow> zone \<Rightarrow> exn + datetime option" where
  "iso_in E dt z =
     (case dt of None \<Rightarrow> Inr None
      | Some d \<Rightarrow> bind (astimezone E d z) (\<lambda>r. Inr (Some r)))"

text \<open>\<open>(body_text or "").strip()\<close>: AttributeError when the body is not text.\<close>

definition body_strip :: "json \<Rightarrow> exn + string" where
  "body_strip b = (case (if truthy b then b else JStr '''') of
                     JStr s \<Rightarrow> Inr (strip s) | _ \<Rightarrow> Inl AttributeError)"

definition parse_article :: "env \<Rightarrow> string \<Rightarrow> exn + article" where
  "parse_article E u =
     bind (fetch E u) (\<lambda>text.
       let soup = html_parse E text;
           title_text = (case find_first soup ''h1'' of
                           Some t \<Rightarrow> get_text t '''' | None \<Rightarrow> '''')
       in bind (published_dt E soup) (\<lambda>dt.
          bind (get_ldjson_article_body E soup) (\<lambda>jb.
            let body_text = (if truthy jb then jb else JStr (extract_paragraphs soup))
            in bind (iso_in E dt UTC) (\<lambda>utc.
               bind (iso_in E dt KST) (\<lambda>kst.
               bind (body_strip body_text) (\<lambda>b.
                 Inr \<lparr>url = u, title = title_text, published_utc = utc,
                      published_kst = kst, body = b\<rparr>))))))"

section \<open>Today's articles\<close>

text \<open>A datetime is always true, so \<open>if not dt\<close> never returns.\<close>

definition is_today_kst :: "env \<Rightarrow> datetime \<Rightarrow> datetime \<Rightarrow> exn + bool" where
  "is_today_kst E dt today_kst =
     bind (astimezone E dt KST) (\<lambda>k. Inr (date_of k = date_of today_kst))"

text \<open>
  \<open>time.sleep(secs)\<close>: the number is first turned into nanoseconds (ValueError for
  NaN, OverflowError beyond 64 bits, so for both infinities), then refused with
  ValueError when it is negative.
\<close>

fun time_sleep :: "pyfloat \<Rightarrow> exn + unit" where
  "time_sleep (Finite r) =
     (if r * 1000000000 > 9223372036854775807 \<or> r * 1000000000 < - 9223372036854775808
      then Inl OverflowError
      else if r < 0 then Inl ValueError
      else Inr ())"
| "time_sleep PosInf = Inl OverflowError"
| "time_sleep NegInf = Inl OverflowError"
| "time_sleep NaN = Inl ValueError"

text \<open>
  The body of the \<open>try\<close> in the loop of \<open>crawl_today\<close>, with its \<open>except\<close>: the article
  to append, or None when nothing is appended.
\<close>

definition visit :: "env \<Rightarrow> datetime \<Rightarrow> string \<Rightarrow> exn + article option" where
  "visit E today_kst u =
     try_except
       (bind (parse_article E u) (\<lambda>art.
          case published_kst art of
            None \<Rightarrow> Inr None
          | Some k \<Rightarrow> bind (is_today_kst E k today_kst)
                        (\<lambda>b. Inr (if b then Some art else None))))
       (\<lambda>e. Inr None)"

fun crawl_loop :: "env \<Rightarrow> datetime \<Rightarrow> pyfloat \<Rightarrow> string list \<Rightarrow> article list
                   \<Rightarrow> exn + article list" where
  "crawl_loop E today_kst sleep_sec [] results = Inr results"
| "crawl_loop E today_kst sleep_sec (u # rest) results =
     bind (visit E today_kst u) (\<lambda>r.
     bind (time_sleep sleep_sec) (\<lambda>_.
       crawl_loop E today_kst sleep_sec rest
         (case r of None \<Rightarrow> results | Some art \<Rightarrow> results @ [art])))"

definition crawl_today :: "env \<Rightarrow> string \<Rightarrow> datetime option \<Rightarrow> int \<Rightarrow> pyfloat
                           \<Rightarrow> exn + article list" where
  "crawl_today E category_url today_kst limit sleep_sec =
     (let today = (case today_kst of None \<Rightarrow> now_kst E | Some t \<Rightarrow> t)
      in bind (get_article_links E category_url limit) (\<lambda>links.
           crawl_loop E today sleep_sec links []))"

section \<open>The HTTP handler\<close>

text \<open>
  The request: its method, its query parameters, and what \<open>req.get_json()\<close> gives (the
  decoded body, or the exception raised).
\<close>

record http_request =
  req_method :: string
  req_params :: "(string \<times> string) list"
  req_json :: "exn + json"

datatype content =
    ErrorBody string "exn option"
  | OkBody int nat "article list"

text \<open>
  The response: \<open>OkBody date_kst count items\<close> stands for the JSON object with these
  three members (the date is the day number that \<open>strftime\<close> prints), \<open>ErrorBody error
  detail\<close> for the error object.
\<close>

record http_response =
  status_code :: nat
  content :: content

text \<open>The four parameters as collected: \<open>date_str\<close>, \<open>limit_str\<close>, \<open>sleep_str\<close>, \<open>category_url\<close>.\<close>

record collected =
  date_str :: json
  limit_str :: "string option"
  sleep_str :: "string option"
  category_url :: json

text \<open>\<open>qs.get(key)\<close>.\<close>

definition qs_get :: "(string \<times> string) list \<Rightarrow> string \<Rightarrow> string option" where
  "qs_get qs key = map_of qs key"

definition opt_json :: "string option \<Rightarrow> json" where
  "opt_json v = (case v of None \<Rightarrow> JNull | Some s \<Rightarrow> JStr s)"

text \<open>\<open>body.get(key, dflt)\<close> and \<open>key in body\<close>: AttributeError unless the body is a dict.\<close>

definition body_get :: "json \<Rightarrow> string \<Rightarrow> json \<Rightarrow> exn + json" where
  "body_get b key dflt =
     (case b of JObj kvs \<Rightarrow> Inr (case map_of kvs key of None \<Rightarrow> dflt | Some v \<Rightarrow> v)
      | _ \<Rightarrow> Inl AttributeError)"

definition body_str :: "env \<Rightarrow> json \<Rightarrow> string \<Rightarrow> string option \<Rightarrow> exn + string option" where
  "body_str E b key dflt =
     (case b of JObj kvs \<Rightarrow> Inr (case map_of kvs key of None \<Rightarrow> dflt
                                    | Some v \<Rightarrow> Some (py_str E v))
      | _ \<Rightarrow> Inl AttributeError)"

text \<open>Lines 270 to 284 of the handler.\<close>

definition collect_params :: "env \<Rightarrow> http_request \<Rightarrow> exn + collected" where
  "collect_params E req =
     (let qs = req_params req;
          c = \<lparr>date_str = opt_json (qs_get qs ''date''),
               limit_str = qs_get qs ''limit'',
               sleep_str = qs_get qs ''sleep'',
               category_url = (case qs_get qs ''category_url'' of
                                 None \<Rightarrow> JStr CATEGORY_URL
                               | Some s \<Rightarrow> if s = '''' then JStr CATEGORY_URL else JStr s)\<rparr>
      in if req_method req = ''POST''
         then bind (case req_json req of
                      Inl e \<Rightarrow> if e = ValueError then Inr (JObj []) else Inl e
                    | Inr b \<Rightarrow> Inr b) (\<lambda>b.
              bind (body_get b ''date'' (date_str c)) (\<lambda>d.
              bind (body_str E b ''limit'' (limit_str c)) (\<lambda>l.
              bind (body_str E b ''sleep'' (sleep_str c)) (\<lambda>s.
              bind (body_get b ''category_url'' (category_url c)) (\<lambda>cu.
                Inr \<lparr>date_str = d, limit_str = l, sleep_str = s, category_url = cu\<rparr>)))))
         else Inr c)"

fun map_int :: "env \<Rightarrow> string list \<Rightarrow> exn + int list" where
  "map_int E [] = Inr []"
| "map_int E (s # ss) = bind (py_int E s) (\<lambda>n. bind (map_int E ss) (\<lambda>ns. Inr (n # ns)))"

text \<open>
  The \<open>try\<close> block that reads the date: \<open>datetime(yyyy, mm, dd, tzinfo=KST)\<close>, or the
  exception that makes the handler answer 400.
\<close>

definition parse_date :: "env \<Rightarrow> json \<Rightarrow> exn + datetime" where
  "parse_date E d =
     (case d of
        JStr s \<Rightarrow>
          bind (map_int E (split_on CHR ''-'' s)) (\<lambda>ns.
            case ns of
              [yyyy, mm, dd] \<Rightarrow>
                bind (make_date yyyy mm dd)
                  (\<lambda>w. Inr \<lparr>wall = w, utcoff = Some (kst_local_offset E w)\<rparr>)
            | _ \<Rightarrow> Inl ValueError)
      | _ \<Rightarrow> Inl AttributeError)"

definition parse_limit :: "env \<Rightarrow> string option \<Rightarrow> int" where
  "parse_limit E l =
     (case l of
        None \<Rightarrow> 40
      | Some s \<Rightarrow> if s = '''' then 40
                  else (case py_int E s of Inl e \<Rightarrow> 40 | Inr n \<Rightarrow> max 1 (min n 80)))"

fun clamp_sleep :: "pyfloat \<Rightarrow> pyfloat" where
  "clamp_sleep (Finite r) = (if r < 0 then Finite 0 else if r > 2 then Finite 2 else Finite r)"
| "clamp_sleep PosInf = Finite 2"
| "clamp_sleep NegInf = Finite 0"
| "clamp_sleep NaN = NaN"

definition parse_sleep :: "env \<Rightarrow> string option \<Rightarrow> pyfloat" where
  "parse_sleep E s =
     (case s of
        None \<Rightarrow> Finite 0.7
      | Some t \<Rightarrow> if t = '''' then Finite 0.7
                  else (case py_float E t of Inl e \<Rightarrow> Finite 0.7 | Inr f \<Rightarrow> clamp_sleep f))"

text \<open>
  \<open>crawl_today\<close> as the handler calls it: \<open>requests.get\<close> raises for a URL that is not
  text (a \<open>category_url\<close> of another JSON type in the request body).
\<close>

definition crawl_any :: "env \<Rightarrow> json \<Rightarrow> datetime option \<Rightarrow> int \<Rightarrow> pyfloat
                         \<Rightarrow> exn + article list" where
  "crawl_any E cu today_kst limit sleep_sec =
     (case cu of JStr s \<Rightarrow> crawl_today E s today_kst limit sleep_sec
      | _ \<Rightarrow> Inl RequestException)"

definition bad_request :: http_response where
  "bad_request = \<lparr>status_code = 400,
                  content = ErrorBody ''invalid date format, use YYYY-MM-DD'' None\<rparr>"

text \<open>
  Lines 286 to 331 of the handler: from the collected parameters to the response
  returned, or the exception raised.
\<close>

definition respond :: "env \<Rightarrow> collected \<Rightarrow> exn + http_response" where
  "respond E c =
     (case (if truthy (date_str c)
            then (case parse_date E (date_str c) of
                    Inl e \<Rightarrow> Inl bad_request | Inr t \<Rightarrow> Inr (Some t))
            else Inr None) of
        Inl response \<Rightarrow> Inr response
      | Inr today_kst \<Rightarrow>
          bind (crawl_any E (category_url c) today_kst
                  (parse_limit E (limit_str c)) (parse_sleep E (sleep_str c))) (\<lambda>items.
            Inr \<lparr>status_code = 200,
                 content = OkBody (date_of (case today_kst of None \<Rightarrow> now_kst_reply E
                                            | Some t \<Rightarrow> t))
                             (length items) items\<rparr>))"

text \<open>The handler: any exception of its \<open>try\<close> block becomes the response 500.\<close>

definition ai_today :: "env \<Rightarrow> http_request \<Rightarrow> http_response" where
  "ai_today E req =
     (case bind (collect_params E req) (respond E) of
        Inr response \<Rightarrow> response
      | Inl e \<Rightarrow> \<lparr>status_code = 500, content = ErrorBody ''internal_error'' (Some e)\<rparr>)"

section \<open>Notions used in the statements\<close>

text \<open>The instant an aware datetime denotes: its wall clock less its offset.\<close>

definition instant :: "datetime \<Rightarrow> int option" where
  "instant d = map_option (\<lambda>off. wall d - off) (utcoff d)"

text \<open>A URL is absolute when it starts with a scheme, as \<open>urlparse\<close> reads one.\<close>

definition is_absolute :: "string \<Rightarrow> bool" where
  "is_absolute u = (fst (split_scheme '''' (clean_url u)) \<noteq> '''')"

text \<open>
  What is known of \<open>list(s)\<close> for a set \<open>s\<close>: it lists the elements of the set, each
  once, in some order.
\<close>

definition set_order_ok :: "env \<Rightarrow> bool" where
  "set_order_ok E = (\<forall>xs. distinct xs \<longrightarrow> mset (set_order E xs) = mset xs)"

text \<open>The meta tag that \<open>get_meta_datetime\<close> looks at, if any.\<close>

definition meta_tag :: "node \<Rightarrow> string \<Rightarrow> node option" where
  "meta_tag soup prop =
     (case find_with soup ''meta'' ''property'' prop of
        Some t \<Rightarrow> Some t
      | None \<Rightarrow> find_with soup ''meta'' ''name'' prop)"

text \<open>
  A page without a usable timestamp source, each source being missing or malformed.
  \<^item> An attribute is unusable when it is missing, empty or refused by \<open>fromisoformat\<close>.
  \<^item> A JSON object carries a date when its \<open>@type\<close> is one of the three article types
    and its \<open>datePublished\<close> (or else \<open>dateCreated\<close>) is a text that \<open>fromisoformat\<close>
    reads. A JSON-LD block is undated when \<open>json.loads\<close> refuses it or none of its
    objects carries a date.
  \<^item> A text shows no date when the month-day-year pattern does not occur in it, or
    its first occurrence is not a date of the calendar (\<open>strptime\<close> refuses it).
  The page lacks a timestamp when the meta tag is missing or its content unusable,
  every JSON-LD block is undated, the first \<open>time\<close> tag is missing or has an unusable
  attribute and a text without date, and the page text shows no date.
\<close>

definition bad_iso :: "env \<Rightarrow> string option \<Rightarrow> bool" where
  "bad_iso E v = (case v of None \<Rightarrow> True
                  | Some c \<Rightarrow> c = '''' \<or> isl (fromisoformat E (replace_Z c)))"

definition carries_date :: "env \<Rightarrow> json \<Rightarrow> bool" where
  "carries_date E obj =
     (case obj of
        JObj kvs \<Rightarrow>
          (case dict_get kvs ''@type'' of JStr ty \<Rightarrow> ty \<in> set article_types | _ \<Rightarrow> False)
          \<and> (case py_or (dict_get kvs ''datePublished'') (dict_get kvs ''dateCreated'') of
                JStr s \<Rightarrow> s \<noteq> '''' \<and> \<not> isl (fromisoformat E (replace_Z s))
              | _ \<Rightarrow> False)
      | _ \<Rightarrow> False)"

definition undated_block :: "env \<Rightarrow> node \<Rightarrow> bool" where
  "undated_block E s =
     (case script_json E s of
        Inl e \<Rightarrow> True
      | Inr data \<Rightarrow> list_all (\<lambda>obj. \<not> carries_date E obj) (candidates data))"

definition no_text_date :: "string \<Rightarrow> bool" where
  "no_text_date text =
     (case search_date text of
        None \<Rightarrow> True
      | Some (m, ds, ys) \<Rightarrow> isl (strptime m ds ys))"

definition lacks_timestamp :: "env \<Rightarrow> node \<Rightarrow> bool" where
  "lacks_timestamp E soup =
     ((case meta_tag soup ''article:published_time'' of
         None \<Rightarrow> True | Some tag \<Rightarrow> bad_iso E (get_attr tag ''content''))
      \<and> list_all (undated_block E) (ldjson_scripts soup)
      \<and> (case find_first soup ''time'' of
            None \<Rightarrow> True
          | Some t \<Rightarrow> bad_iso E (get_attr t ''datetime'')
                      \<and> no_text_date (get_text t '' ''))
      \<and> no_text_date (get_text soup '' ''))"

section \<open>An environment for examples\<close>

text \<open>
  A small environment on which the functions can be run. Its parsers read the plain
  forms the examples use as Python does: decimal integers with a sign, decimal numbers
  and \<open>nan\<close>/\<open>inf\<close>, two ISO dates, two JSON texts. Seoul is nine hours ahead of UTC and the
  system clock runs in UTC. Its web has the default category page, with three links,
  and the page of the first of them; a set lists its elements in the order they were
  added.
\<close>

definition int_of_str :: "string \<Rightarrow> exn + int" where
  "int_of_str s =
     (let t = strip s;
          neg = (take 1 t = ''-'');
          ds = (if take 1 t = ''-'' \<or> take 1 t = ''+'' then drop 1 t else t)
      in if ds \<noteq> [] \<and> list_all is_digit ds
         then Inr (if neg then - digits_val ds else digits_val ds)
         else Inl ValueError)"

definition float_of_str :: "string \<Rightarrow> exn + pyfloat" where
  "float_of_str s =
     (let t = strip s;
          neg = (take 1 t = ''-'');
          u = (if take 1 t = ''-'' \<or> take 1 t = ''+'' then drop 1 t else t);
          ip = takeWhile is_digit u;
          fp = drop 1 (dropWhile is_digit u)
      in if u = ''nan'' then Inr NaN
         else if u = ''inf'' then Inr (if neg then NegInf else PosInf)
         else if ip \<noteq> [] \<and> list_all is_digit fp
                 \<and> (dropWhile is_digit u = [] \<or> (take 1 (dropWhile is_digit u) = ''.'' \<and> fp \<noteq> []))
         then Inr (Finite ((if neg then - 1 else 1)
                            * (real_of_int (digits_val ip)
                               + real_of_int (digits_val fp) / 10 ^ length fp)))
         else Inl ValueError)"

fun nat_str :: "nat \<Rightarrow> string" where
  "nat_str n = (if n < 10 then [''0123456789'' ! n]
                else nat_str (n div 10) @ [''0123456789'' ! (n mod 10)])"

fun sample_str :: "json \<Rightarrow> string" where
  "sample_str (JStr s) = s"
| "sample_str (JInt i) = (if i < 0 then ''-'' @ nat_str (nat (- i)) else nat_str (nat i))"
| "sample_str JNull = ''None''"
| "sample_str (JBool b) = (if b then ''True'' else ''False'')"
| "sample_str _ = ''?''"

definition sample_iso :: "string \<Rightarrow> exn + datetime" where
  "sample_iso s =
     (if s = ''2025-09-10T01:00:00+00:00'' then Inr \<lparr>wall = 63893062800000000, utcoff = Some 0\<rparr>
      else if s = ''2025-09-09T01:00:00+00:00'' then Inr \<lparr>wall = 63892976400000000, utcoff = Some 0\<rparr>
      else Inl ValueError)"

definition sample_ld :: "string" where
  "sample_ld = ''{\"@type\": \"NewsArticle\", \"datePublished\": \"2025-09-09T01:00:00Z\"}''"

definition sample_ld_undated :: "string" where
  "sample_ld_undated = ''{\"@type\": \"NewsArticle\", \"datePublished\": \"yesterday\"}''"

definition sample_json :: "string \<Rightarrow> exn + json" where
  "sample_json s =
     (if s = sample_ld
      then Inr (JObj [(''@type'', JStr ''NewsArticle''),
                      (''datePublished'', JStr ''2025-09-09T01:00:00Z'')])
      else if s = sample_ld_undated
      then Inr (JObj [(''@type'', JStr ''NewsArticle''),
                      (''datePublished'', JStr ''yesterday'')])
      else Inl ValueError)"

definition category_page :: "node" where
  "category_page =
     Tag ''[document]'' []
       [Tag ''h3'' [] [Tag ''a'' [(''href'', ''/2025/09/10/alpha/'')] [Text ''Alpha'']],
        Tag ''a'' [(''href'', ''https://techcrunch.com/2025/09/10/beta/'')] [Text ''Beta''],
        Tag ''a'' [(''href'', ''/about/'')] [Text ''About'']]"

definition alpha_page :: "node" where
  "alpha_page =
     Tag ''[document]'' []
       [Tag ''meta'' [(''property'', ''article:published_time''),
                      (''content'', ''2025-09-10T01:00:00Z'')] [],
        Tag ''script'' [(''type'', ''application/ld+json'')] [Raw sample_ld],
        Tag ''h1'' [] [Text ''Alpha''],
        Tag ''article'' [] [Tag ''p'' [] [Text ''Body of alpha.'']]]"

text \<open>
  Two more listing pages: one on another site, with a link to its own article and a
  link to a third site; one whose only link has a dot segment after the year and month.
\<close>

definition news_page :: "node" where
  "news_page =
     Tag ''[document]'' []
       [Tag ''a'' [(''href'', ''/2025/09/10/local/'')] [Text ''Local''],
        Tag ''a'' [(''href'', ''https://nottechcrunch.com.example.org/2025/09/10/x/'')]
          [Text ''Elsewhere'']]"

definition archive_page :: "node" where
  "archive_page =
     Tag ''[document]'' [] [Tag ''a'' [(''href'', ''/2025/09/../x'')] [Text ''Up'']]"

definition sample_get :: "string \<Rightarrow> exn + string" where
  "sample_get u =
     (if u = CATEGORY_URL then Inr ''category''
      else if u = ''https://techcrunch.com/2025/09/10/alpha/'' then Inr ''alpha''
      else if u = ''https://news.example.org/ai/'' then Inr ''news''
      else if u = ''https://techcrunch.com/tag/archive/'' then Inr ''archive''
      else Inl RequestException)"

definition sample_parse :: "string \<Rightarrow> node" where
  "sample_parse text =
     (if text = ''category'' then category_page
      else if text = ''alpha'' then alpha_page
      else if text = ''news'' then news_page
      else if text = ''archive'' then archive_page
      else Tag ''[document]'' [] [Text text])"

definition sample_env :: env where
  "sample_env =
     \<lparr>http_get = sample_get, html_parse = sample_parse, json_loads = sample_json,
      fromisoformat = sample_iso, py_int = int_of_str, py_float = float_of_str,
      py_str = sample_str, kst_offset = (\<lambda>t. 32400000000),
      kst_local_offset = (\<lambda>t. 32400000000), local_offset = (\<lambda>t. Inr 0),
      set_order = (\<lambda>xs. xs),
      now_kst = \<lparr>wall = 63893109600000000, utcoff = Some 32400000000\<rparr>,
      now_kst_reply = \<lparr>wall = 63893109600000000, utcoff = Some 32400000000\<rparr>,
      netloc_rejected = (\<lambda>n. False)\<rparr>"


definition get_request :: "(string \<times> string) list \<Rightarrow> http_request" where
  "get_request qs = \<lparr>req_method = ''GET'', req_params = qs, req_json = Inl ValueError\<rparr>"

definition post_request :: "(string \<times> string) list \<Rightarrow> json \<Rightarrow> http_request" where
  "post_request qs b = \<lparr>req_method = ''POST'', req_params = qs, req_json = Inr b\<rparr>"

text \<open>
  A page whose four timestamp sources are all there and all malformed, and a page
  with two meta tags of which only the second can be read.
\<close>

definition broken_page :: "node" where
  "broken_page =
     Tag ''[document]'' []
       [Tag ''meta'' [(''property'', ''article:published_time''), (''content'', ''yesterday'')] [],
        Tag ''script'' [(''type'', ''application/ld+json'')] [Raw ''{oops''],
        Tag ''time'' [(''datetime'', ''soon'')] [Text ''later''],
        Tag ''p'' [] [Text ''Nothing is dated here.'']]"

text \<open>
  A page whose sources are there but carry nothing usable: an empty meta content, a
  JSON-LD block that parses and holds a date no parser reads, a \<open>time\<close> tag without
  attribute, and a text whose only date is 30 February.
\<close>

definition undated_page :: "node" where
  "undated_page =
     Tag ''[document]'' []
       [Tag ''meta'' [(''name'', ''article:published_time''), (''content'', '''')] [],
        Tag ''script'' [(''type'', ''application/ld+json'')] [Raw sample_ld_undated],
        Tag ''time'' [] [Text ''February 30, 2025''],
        Tag ''p'' [] [Text ''Printed on February 30, 2025.'']]"

definition two_meta_page :: "node" where
  "two_meta_page =
     Tag ''[document]'' []
       [Tag ''meta'' [(''property'', ''article:published_time''), (''content'', ''yesterday'')] [],
        Tag ''meta'' [(''property'', ''article:published_time''),
                      (''content'', ''2025-09-10T01:00:00Z'')] [],
        Tag ''script'' [(''type'', ''application/ld+json'')] [Raw sample_ld]]"

section \<open>Auxiliary facts\<close>

lemma try_except_none: "\<exists>r. try_except m (\<lambda>e. Inr None) = Inr r"
  by (cases m) (simp_all add: try_except_def)

lemma bind_Inr: "bind m f = Inr r \<Longrightarrow> \<exists>v. m = Inr v \<and> f v = Inr r"
  by (cases m) (simp_all add: bind_def)

lemma astimezone_result:
  assumes "astimezone E d z = Inr r"
  shows "\<exists>off. (case utcoff d of Some x \<Rightarrow> Inr x | None \<Rightarrow> local_offset E (wall d)) = Inr off
           \<and> in_range (wall d - off) \<and> in_range (wall r)
           \<and> utcoff r = Some (case z of UTC \<Rightarrow> 0 | KST \<Rightarrow> kst_offset E (wall d - off))
           \<and> wall r = wall d - off + (case z of UTC \<Rightarrow> 0 | KST \<Rightarrow> kst_offset E (wall d - off))"
proof -
  from bind_Inr[OF assms[unfolded astimezone_def]] obtain off where
    o: "(case utcoff d of Some x \<Rightarrow> Inr x | None \<Rightarrow> local_offset E (wall d)) = Inr off"
    and r: "(let inst = wall d - off
              in if \<not> in_range inst then Inl OverflowError
                 else let off' = (case z of UTC \<Rightarrow> 0 | KST \<Rightarrow> kst_offset E inst)
                      in if \<not> in_range (inst + off') then Inl OverflowError
                         else Inr \<lparr>wall = inst + off', utcoff = Some off'\<rparr>) = Inr r"
    by blast
  from r have "in_range (wall d - off)"
    and "in_range (wall d - off + (case z of UTC \<Rightarrow> 0 | KST \<Rightarrow> kst_offset E (wall d - off)))"
    and "r = \<lparr>wall = wall d - off + (case z of UTC \<Rightarrow> 0 | KST \<Rightarrow> kst_offset E (wall d - off)),
              utcoff = Some (case z of UTC \<Rightarrow> 0 | KST \<Rightarrow> kst_offset E (wall d - off))\<rparr>"
    by (auto simp: Let_def split: if_splits)
  with o show ?thesis by auto
qed

lemma parse_article_fields:
  assumes "parse_article E u = Inr art"
  shows "\<exists>text dt. fetch E u = Inr text \<and> published_dt E (html_parse E text) = Inr dt
           \<and> iso_in E dt UTC = Inr (published_utc art)
           \<and> iso_in E dt KST = Inr (published_kst art) \<and> url art = u"
  using assms unfolding parse_article_def Let_def
  by (auto dest!: bind_Inr)

lemma iso_in_Some:
  "iso_in E dt z = Inr (Some r) \<Longrightarrow> \<exists>d. dt = Some d \<and> astimezone E d z = Inr r"
  by (auto simp: iso_in_def dest!: bind_Inr split: option.splits)

lemma set_map_filter_iff:
  "y \<in> set (List.map_filter f xs) \<longleftrightarrow> (\<exists>x \<in> set xs. f x = Some y)"
  by (induction xs) (auto simp: List.map_filter_simps split: option.splits)

section \<open>Facts about link discovery\<close>

lemma descendants_nodes: "map snd (descendants a t) = map snd (descendants b t)"
proof (induction t arbitrary: a b)
  case (Tag n as cs)
  have m: "map (\<lambda>c. c # map snd (descendants (a @ [n]) c)) cs
        = map (\<lambda>c. c # map snd (descendants (b @ [n]) c)) cs"
    using Tag.IH by (intro map_cong) auto
  have e: "map snd (descendants x (Tag n as cs))
           = concat (map (\<lambda>c. c # map snd (descendants (x @ [n]) c)) cs)" for x
    by (simp add: map_concat comp_def)
  show ?case unfolding e m by (rule refl)
next
  case (Text x)
  show ?case by simp
next
  case (Raw x)
  show ?case by simp
qed

lemma descendants_trans:
  "t \<in> set (map snd (descendants a s)) \<Longrightarrow> x \<in> set (map snd (descendants b t))
   \<Longrightarrow> x \<in> set (map snd (descendants a s))"
proof (induction s arbitrary: a)
  case (Tag n as cs)
  from Tag.prems(1) obtain c where c: "c \<in> set cs"
    and t: "t = c \<or> t \<in> set (map snd (descendants (a @ [n]) c))"
    by auto
  have "x \<in> set (map snd (descendants (a @ [n]) c))"
  proof (cases "t = c")
    case True
    with Tag.prems(2) descendants_nodes[of b c "a @ [n]"] show ?thesis by simp
  next
    case False
    with t have "t \<in> set (map snd (descendants (a @ [n]) c))" by simp
    from Tag.IH[OF c this Tag.prems(2)] show ?thesis .
  qed
  with c show ?case by auto
next
  case (Text x)
  then show ?case by simp
next
  case (Raw x)
  then show ?case by simp
qed

lemma find_all_below:
  "t \<in> set (find_all soup n) \<Longrightarrow> x \<in> set (find_all t m) \<Longrightarrow> x \<in> set (find_all soup m)"
  using descendants_trans[of t "[]" soup x "[]"] by (auto simp: find_all_def)

lemma anchor_hrefs_below:
  assumes "t \<in> set (find_all soup n)" and "h \<in> set (anchor_hrefs t)"
  shows "h \<in> set (anchor_hrefs soup)"
proof -
  from assms(2) obtain a where "a \<in> set (find_all t ''a'')" "get_attr a ''href'' = Some h"
    by (auto simp: anchor_hrefs_def set_map_filter_iff)
  with find_all_below[OF assms(1)] show ?thesis
    by (auto simp: anchor_hrefs_def set_map_filter_iff)
qed

lemma first_href_below:
  "t \<in> set (find_all soup n) \<Longrightarrow> first_href t = Some h \<Longrightarrow> h \<in> set (anchor_hrefs soup)"
  by (rule anchor_hrefs_below) (auto simp: first_href_def split: list.splits)

lemma set_add_distinct: "distinct links \<Longrightarrow> distinct (set_add links x)"
  by (simp add: set_add_def)

lemma set_set_add: "set (set_add links x) = insert x (set links)"
  by (auto simp: set_add_def)

text \<open>
  What the two loops keep true of the set: its elements are distinct, and each is the
  normalisation of an accepted href out of a given collection \<open>H\<close>.
\<close>

lemma primary_pass_inv:
  assumes "primary_pass E hs links = Inr out" and "distinct links"
    and "\<forall>y \<in> set links. \<exists>h \<in> H. is_article_url E h \<and> normalize_link E h = Inr y"
    and "\<forall>t \<in> set hs. \<forall>h. first_href t = Some h \<longrightarrow> h \<in> H"
  shows "distinct out
         \<and> (\<forall>y \<in> set out. \<exists>h \<in> H. is_article_url E h \<and> normalize_link E h = Inr y)"
  using assms
proof (induction hs arbitrary: links)
  case Nil
  then show ?case by simp
next
  case (Cons h3 rest)
  from Cons.prems(4) have r4: "\<forall>t \<in> set rest. \<forall>h. first_href t = Some h \<longrightarrow> h \<in> H"
    by simp
  show ?case
  proof (cases "first_href h3")
    case None
    with Cons.prems(1) have "primary_pass E rest links = Inr out" by simp
    from Cons.IH[OF this Cons.prems(2,3) r4] show ?thesis .
  next
    case (Some href)
    with Cons.prems(4) have hH: "href \<in> H" by simp
    show ?thesis
    proof (cases "is_article_url E href")
      case False
      with Some Cons.prems(1) have "primary_pass E rest links = Inr out" by simp
      from Cons.IH[OF this Cons.prems(2,3) r4] show ?thesis .
    next
      case True
      with Some Cons.prems(1) obtain y where n: "normalize_link E href = Inr y"
        and r: "primary_pass E rest (set_add links y) = Inr out"
        by (auto dest!: bind_Inr)
      from Cons.prems(2) have d: "distinct (set_add links y)" by (rule set_add_distinct)
      from Cons.prems(3) True n hH
      have "\<forall>z \<in> set (set_add links y).
              \<exists>h \<in> H. is_article_url E h \<and> normalize_link E h = Inr z"
        by (auto simp: set_set_add)
      from Cons.IH[OF r d this r4] show ?thesis .
    qed
  qed
qed

lemma secondary_step:
  assumes "(if is_article_url E href
            then bind (normalize_link E href) (\<lambda>u. Inr (set_add links u))
            else Inr links) = Inr links'"
  shows "set links \<subseteq> set links'"
    and "distinct links \<Longrightarrow> distinct links'"
    and "is_article_url E href \<Longrightarrow> \<exists>y \<in> set links'. normalize_link E href = Inr y"
    and "\<forall>z \<in> set links'. z \<in> set links
           \<or> (is_article_url E href \<and> normalize_link E href = Inr z)"
  using assms
  by (auto simp: set_set_add set_add_distinct dest!: bind_Inr split: if_splits)

lemma secondary_pass_inv:
  assumes "secondary_pass E hrefs limit links = Inr out" and "distinct links"
    and "\<forall>y \<in> set links. \<exists>h \<in> H. is_article_url E h \<and> normalize_link E h = Inr y"
    and "set hrefs \<subseteq> H"
  shows "distinct out
         \<and> (\<forall>y \<in> set out. \<exists>h \<in> H. is_article_url E h \<and> normalize_link E h = Inr y)"
  using assms
proof (induction hrefs arbitrary: links)
  case Nil
  then show ?case by simp
next
  case (Cons href rest)
  from Cons.prems(1) obtain links' where
    s: "(if is_article_url E href
         then bind (normalize_link E href) (\<lambda>u. Inr (set_add links u))
         else Inr links) = Inr links'"
    and r: "(if int (length links') \<ge> limit then Inr links'
             else secondary_pass E rest limit links') = Inr out"
    by (auto dest!: bind_Inr)
  from Cons.prems(4) have hH: "href \<in> H" and rH: "set rest \<subseteq> H" by simp_all
  from secondary_step(2)[OF s Cons.prems(2)] have d: "distinct links'" .
  from secondary_step(4)[OF s] Cons.prems(3) hH
  have i: "\<forall>y \<in> set links'. \<exists>h \<in> H. is_article_url E h \<and> normalize_link E h = Inr y"
    by blast
  show ?case
  proof (cases "int (length links') \<ge> limit")
    case True
    with r d i show ?thesis by simp
  next
    case False
    with r have "secondary_pass E rest limit links' = Inr out" by simp
    from Cons.IH[OF this d i rH] show ?thesis .
  qed
qed

text \<open>
  When the second loop ends with fewer than \<open>limit\<close> links it has not stopped early:
  the set still holds what it held, and the normalisation of every accepted href.
\<close>

lemma secondary_pass_complete:
  assumes "secondary_pass E hrefs limit links = Inr out" and "int (length out) < limit"
  shows "set links \<subseteq> set out
         \<and> (\<forall>h \<in> set hrefs. is_article_url E h
               \<longrightarrow> (\<exists>y \<in> set out. normalize_link E h = Inr y))"
  using assms
proof (induction hrefs arbitrary: links)
  case Nil
  then show ?case by simp
next
  case (Cons href rest)
  from Cons.prems(1) obtain links' where
    s: "(if is_article_url E href
         then bind (normalize_link E href) (\<lambda>u. Inr (set_add links u))
         else Inr links) = Inr links'"
    and r: "(if int (length links') \<ge> limit then Inr links'
             else secondary_pass E rest limit links') = Inr out"
    by (auto dest!: bind_Inr)
  have "\<not> int (length links') \<ge> limit"
  proof
    assume "int (length links') \<ge> limit"
    with r have "out = links'" by simp
    with Cons.prems(2) \<open>int (length links') \<ge> limit\<close> show False by simp
  qed
  with r have "secondary_pass E rest limit links' = Inr out" by simp
  from Cons.IH[OF this Cons.prems(2)]
  have sub: "set links' \<subseteq> set out"
    and rest: "\<forall>h \<in> set rest. is_article_url E h
                 \<longrightarrow> (\<exists>y \<in> set out. normalize_link E h = Inr y)" by simp_all
  from secondary_step(1)[OF s] sub have "set links \<subseteq> set out" by blast
  moreover from secondary_step(3)[OF s] sub
  have "is_article_url E href \<longrightarrow> (\<exists>y \<in> set out. normalize_link E href = Inr y)" by blast
  ultimately show ?case using rest by simp
qed

lemma collect_links_inv:
  assumes "collect_links E soup limit = Inr links"
  shows "distinct links
         \<and> (\<forall>y \<in> set links. \<exists>h \<in> set (anchor_hrefs soup).
               is_article_url E h \<and> normalize_link E h = Inr y)"
proof -
  from assms obtain l1 where p: "primary_pass E (find_all soup ''h3'') [] = Inr l1"
    and s: "(if int (length l1) < limit
             then secondary_pass E (anchor_hrefs soup) limit l1
             else Inr l1) = Inr links"
    by (auto simp: collect_links_def dest!: bind_Inr)
  have "\<forall>t \<in> set (find_all soup ''h3''). \<forall>h. first_href t = Some h
          \<longrightarrow> h \<in> set (anchor_hrefs soup)"
    using first_href_below by blast
  with primary_pass_inv[OF p, of "set (anchor_hrefs soup)"]
  have i1: "distinct l1
     \<and> (\<forall>y \<in> set l1. \<exists>h \<in> set (anchor_hrefs soup).
           is_article_url E h \<and> normalize_link E h = Inr y)"
    by simp
  show ?thesis
  proof (cases "int (length l1) < limit")
    case True
    with s have "secondary_pass E (anchor_hrefs soup) limit l1 = Inr links" by simp
    from secondary_pass_inv[OF this, of "set (anchor_hrefs soup)"] i1 show ?thesis by blast
  next
    case False
    with s i1 show ?thesis by simp
  qed
qed

lemma collect_links_complete:
  assumes "collect_links E soup limit = Inr links" and "int (length links) < limit"
  shows "\<forall>h \<in> set (anchor_hrefs soup). is_article_url E h
           \<longrightarrow> (\<exists>y \<in> set links. normalize_link E h = Inr y)"
proof -
  from assms(1) obtain l1 where p: "primary_pass E (find_all soup ''h3'') [] = Inr l1"
    and s: "(if int (length l1) < limit
             then secondary_pass E (anchor_hrefs soup) limit l1
             else Inr l1) = Inr links"
    by (auto simp: collect_links_def dest!: bind_Inr)
  have "int (length l1) < limit"
  proof (rule ccontr)
    assume "\<not> int (length l1) < limit"
    with s have "links = l1" by simp
    with assms(2) \<open>\<not> int (length l1) < limit\<close> show False by simp
  qed
  with s have "secondary_pass E (anchor_hrefs soup) limit l1 = Inr links" by simp
  from secondary_pass_complete[OF this assms(2)] show ?thesis by simp
qed

lemma collect_links_joins:
  assumes "collect_links E soup limit = Inr links"
  shows "set links \<subseteq> {y. \<exists>h \<in> set (anchor_hrefs soup). is_article_url E h
                           \<and> urljoin (netloc_rejected E) CATEGORY_URL h = Inr y}"
    and "int (length links) < limit \<Longrightarrow>
         set links = {y. \<exists>h \<in> set (anchor_hrefs soup). is_article_url E h
                           \<and> urljoin (netloc_rejected E) CATEGORY_URL h = Inr y}"
proof -
  from collect_links_inv[OF assms]
  show sub: "set links \<subseteq> {y. \<exists>h \<in> set (anchor_hrefs soup). is_article_url E h
                           \<and> urljoin (netloc_rejected E) CATEGORY_URL h = Inr y}"
    by (auto simp: normalize_link_def)
  assume "int (length links) < limit"
  from collect_links_complete[OF assms this]
  have "{y. \<exists>h \<in> set (anchor_hrefs soup). is_article_url E h
              \<and> urljoin (netloc_rejected E) CATEGORY_URL h = Inr y} \<subseteq> set links"
    by (auto simp: normalize_link_def)
  with sub
  show "set links = {y. \<exists>h \<in> set (anchor_hrefs soup). is_article_url E h
                           \<and> urljoin (netloc_rejected E) CATEGORY_URL h = Inr y}"
    by blast
qed

lemma get_article_links_parts:
  assumes "get_article_links E cat limit = Inr ys"
  shows "\<exists>html links. fetch E cat = Inr html
           \<and> collect_links E (html_parse E html) limit = Inr links
           \<and> ys = slice_to limit (set_order E links)"
  using assms by (auto simp: get_article_links_def dest!: bind_Inr)

lemma set_order_props:
  assumes "set_order_ok E" and "distinct xs"
  shows "distinct (set_order E xs)" and "set (set_order E xs) = set xs"
    and "length (set_order E xs) = length xs"
proof -
  from assms have m: "mset (set_order E xs) = mset xs" by (simp add: set_order_ok_def)
  from m assms(2) show "distinct (set_order E xs)" by (metis mset_eq_imp_distinct_iff)
  from m show "set (set_order E xs) = set xs" by (rule mset_eq_setD)
  from m show "length (set_order E xs) = length xs" by (rule mset_eq_length)
qed

lemma slice_to_props:
  "distinct xs \<Longrightarrow> distinct (slice_to n xs)"
  "set (slice_to n xs) \<subseteq> set xs"
  "0 \<le> n \<Longrightarrow> length (slice_to n xs) = min (nat n) (length xs)"
  "int (length xs) \<le> n \<Longrightarrow> slice_to n xs = xs"
  by (auto simp: slice_to_def dest: in_set_takeD)

section \<open>Facts about URLs\<close>

lemma urlparse_unchecked:
  assumes "\<not> needs_check (fst (split_netloc (snd (split_scheme dflt (clean_url u)))))"
  shows "urlparse nr u dflt = urlparse (\<lambda>n. False) u dflt"
proof -
  obtain sch u1 where a: "split_scheme dflt (clean_url u) = (sch, u1)" by fastforce
  obtain nl u2 where b: "split_netloc u1 = (nl, u2)" by fastforce
  from assms a b have "\<not> needs_check nl" by simp
  with a b show ?thesis by (simp add: urlparse_def)
qed

lemma urlparse_base:
  "urlparse nr CATEGORY_URL [] =
     Inr \<lparr>scheme = ''https'', netloc = ''techcrunch.com'',
          path = ''/category/artificial-intelligence/'', params = [], query = [],
          fragment = []\<rparr>"
proof -
  have "\<not> needs_check (fst (split_netloc (snd (split_scheme [] (clean_url CATEGORY_URL)))))"
    by code_simp
  from urlparse_unchecked[OF this]
  have "urlparse nr CATEGORY_URL [] = urlparse (\<lambda>n. False) CATEGORY_URL []" .
  also have "\<dots> = Inr \<lparr>scheme = ''https'', netloc = ''techcrunch.com'',
          path = ''/category/artificial-intelligence/'', params = [], query = [],
          fragment = []\<rparr>"
    by code_simp
  finally show ?thesis .
qed

lemma urlparse_scheme:
  "urlparse nr u dflt = Inr r \<Longrightarrow> scheme r = fst (split_scheme dflt (clean_url u))"
  by (auto simp: urlparse_def Let_def split: prod.splits if_splits)

lemma is_alpha_not_colon: "is_alpha c \<Longrightarrow> c \<noteq> CHR '':''"
  by (auto simp: is_alpha_def ascii_lower_def ascii_upper_def)

lemma split_scheme_found:
  assumes "fst (split_scheme dflt s) \<noteq> dflt"
  shows "fst (split_scheme [] s) = fst (split_scheme dflt s) \<and> fst (split_scheme [] s) \<noteq> []"
proof -
  let ?c = "CHR '':'' \<in> set s \<and> s \<noteq> [] \<and> is_alpha (hd s)
         \<and> (\<forall>c \<in> set (takeWhile (\<lambda>x. x \<noteq> CHR '':'') s). c \<in> set scheme_chars)"
  from assms have c: ?c by (auto simp: split_scheme_def split: if_splits)
  then have "takeWhile (\<lambda>x. x \<noteq> CHR '':'') s \<noteq> []"
    using is_alpha_not_colon by (cases s) auto
  with c show ?thesis by (simp add: split_scheme_def lower_def)
qed

lemma https_prefix_absolute: "is_absolute (''https:'' @ rest)"
proof -
  have c: "clean_url (''https:'' @ rest)
           = ''https:'' @ filter (\<lambda>c. c \<notin> set [CHR 0x09, CHR 0x0D, CHR 0x0A]) rest"
    by (simp add: clean_url_def c0_or_space_def)
  have t: "takeWhile (\<lambda>x. x \<noteq> CHR '':'') (''https:'' @ xs) = ''https''" for xs
    by simp
  have l: "lower ''https'' = ''https''" by code_simp
  have a: "is_alpha CHR ''h''" by code_simp
  have s: "\<forall>c \<in> set ''https''. c \<in> set scheme_chars" by code_simp
  show ?thesis
    unfolding is_absolute_def c split_scheme_def
    using t l a s by simp
qed

lemma urlunparse_absolute: "scheme r = ''https'' \<Longrightarrow> is_absolute (urlunparse r)"
proof -
  assume "scheme r = ''https''"
  then have "\<exists>rest. urlunparse r = ''https:'' @ rest"
    by (simp add: urlunparse_def Let_def)
  with https_prefix_absolute show ?thesis by auto
qed

lemma https_relative: "''https'' \<in> set uses_relative" "''https'' \<in> set uses_netloc"
  by (simp_all add: uses_relative_def uses_netloc_def)

lemma category_url_absolute: "is_absolute CATEGORY_URL"
  by code_simp

lemma category_url_nonempty: "CATEGORY_URL \<noteq> []"
  by (simp add: CATEGORY_URL_def)

lemma normalize_link_absolute:
  assumes "normalize_link E href = Inr y"
  shows "is_absolute y"
proof (cases "href = []")
  case True
  with assms category_url_nonempty have "y = CATEGORY_URL"
    by (simp add: normalize_link_def urljoin_def)
  with category_url_absolute show ?thesis by simp
next
  case False
  note defs = normalize_link_def urljoin_def urlparse_base category_url_nonempty
  from assms False obtain u where u: "urlparse (netloc_rejected E) href ''https'' = Inr u"
    by (cases "urlparse (netloc_rejected E) href ''https''") (simp_all add: defs)
  show ?thesis
  proof (cases "scheme u = ''https''")
    case no: False
    with assms False u have y: "y = href" by (simp add: defs)
    from no urlparse_scheme[OF u]
    have "fst (split_scheme ''https'' (clean_url href)) \<noteq> ''https''" by simp
    from split_scheme_found[OF this]
    have "fst (split_scheme [] (clean_url href)) \<noteq> []" by blast
    with y show ?thesis by (simp add: is_absolute_def)
  next
    case yes: True
    with assms False u show ?thesis
      by (auto simp: defs Let_def https_relative urlunparse_absolute split: if_splits)
  qed
qed

lemma year_month_at_shape:
  "year_month_at s \<Longrightarrow>
   \<exists>y1 y2 m1 m2 rest. s = ''/20'' @ [y1, y2] @ ''/'' @ [m1, m2] @ ''/'' @ rest
      \<and> is_digit y1 \<and> is_digit y2 \<and> is_digit m1 \<and> is_digit m2"
  by (erule year_month_at.elims) auto

lemma search_year_month_shape:
  "search_year_month p \<Longrightarrow>
   \<exists>pre y1 y2 m1 m2 rest. p = pre @ ''/20'' @ [y1, y2] @ ''/'' @ [m1, m2] @ ''/'' @ rest
      \<and> is_digit y1 \<and> is_digit y2 \<and> is_digit m1 \<and> is_digit m2"
proof (induction p)
  case Nil
  then show ?case by simp
next
  case (Cons c cs)
  show ?case
  proof (cases "year_month_at (c # cs)")
    case True
    from year_month_at_shape[OF this] obtain y1 y2 m1 m2 rest where
      "c # cs = [] @ ''/20'' @ [y1, y2] @ ''/'' @ [m1, m2] @ ''/'' @ rest
         \<and> is_digit y1 \<and> is_digit y2 \<and> is_digit m1 \<and> is_digit m2" by auto
    then show ?thesis by blast
  next
    case False
    with Cons.prems have "search_year_month cs" by simp
    from Cons.IH[OF this] obtain pre y1 y2 m1 m2 rest where
      "cs = pre @ ''/20'' @ [y1, y2] @ ''/'' @ [m1, m2] @ ''/'' @ rest
         \<and> is_digit y1 \<and> is_digit y2 \<and> is_digit m1 \<and> is_digit m2" by blast
    then have "c # cs = (c # pre) @ ''/20'' @ [y1, y2] @ ''/'' @ [m1, m2] @ ''/'' @ rest
         \<and> is_digit y1 \<and> is_digit y2 \<and> is_digit m1 \<and> is_digit m2" by simp
    then show ?thesis by blast
  qed
qed

lemma str_in_shape: "str_in n h \<Longrightarrow> \<exists>pre post. h = pre @ n @ post"
proof (induction h)
  case Nil
  then show ?case by simp
next
  case (Cons c cs)
  show ?case
  proof (cases "prefix n (c # cs)")
    case True
    then obtain post where "c # cs = [] @ n @ post" by (auto simp: prefix_def)
    then show ?thesis by blast
  next
    case False
    with Cons.prems have "str_in n cs" by simp
    from Cons.IH[OF this] obtain pre post where "cs = pre @ n @ post" by blast
    then have "c # cs = (c # pre) @ n @ post" by simp
    then show ?thesis by blast
  qed
qed

section \<open>The loop of crawl_today\<close>

lemma visit_total: "\<exists>r. visit E today u = Inr r"
  unfolding visit_def by (rule try_except_none)

lemma astimezone_kst_again:
  assumes "astimezone E d KST = Inr k"
  shows "astimezone E k KST = Inr k"
proof -
  from astimezone_result[OF assms] obtain off where
    i: "in_range (wall d - off)" and w: "in_range (wall k)"
    and o: "utcoff k = Some (kst_offset E (wall d - off))"
    and k: "wall k = wall d - off + kst_offset E (wall d - off)"
    by auto
  from o k have inst: "wall k - kst_offset E (wall d - off) = wall d - off" by simp
  have "k = \<lparr>wall = wall d - off + kst_offset E (wall d - off),
             utcoff = Some (kst_offset E (wall d - off))\<rparr>"
    using o k by simp
  with i w o k inst show ?thesis
    by (simp add: astimezone_def bind_def Let_def)
qed

lemma published_kst_resolved:
  assumes "parse_article E u = Inr art"
  shows "published_kst art = Some k \<longleftrightarrow>
         (\<exists>html d. fetch E u = Inr html
            \<and> published_dt E (html_parse E html) = Inr (Some d)
            \<and> astimezone E d KST = Inr k)"
proof -
  from parse_article_fields[OF assms] obtain html dt where
    f: "fetch E u = Inr html" and p: "published_dt E (html_parse E html) = Inr dt"
    and ik: "iso_in E dt KST = Inr (published_kst art)" by blast
  show ?thesis
  proof
    assume "published_kst art = Some k"
    with ik iso_in_Some[of E dt KST k] obtain d where
      "dt = Some d" "astimezone E d KST = Inr k" by auto
    with f p show "\<exists>html d. fetch E u = Inr html
            \<and> published_dt E (html_parse E html) = Inr (Some d)
            \<and> astimezone E d KST = Inr k" by blast
  next
    assume "\<exists>html d. fetch E u = Inr html
            \<and> published_dt E (html_parse E html) = Inr (Some d)
            \<and> astimezone E d KST = Inr k"
    then obtain d where "dt = Some d" "astimezone E d KST = Inr k"
      using f p by auto
    with ik show "published_kst art = Some k" by (simp add: iso_in_def bind_def)
  qed
qed

lemma stamps_together:
  assumes "parse_article E u = Inr art"
  shows "published_utc art = None \<longleftrightarrow> published_kst art = None"
proof -
  from parse_article_fields[OF assms] obtain dt where
    iu: "iso_in E dt UTC = Inr (published_utc art)"
    and ik: "iso_in E dt KST = Inr (published_kst art)" by blast
  then show ?thesis
    by (cases dt) (auto simp: iso_in_def dest!: bind_Inr)
qed

lemma visit_Some_iff:
  "visit E today u = Inr (Some art) \<longleftrightarrow>
   parse_article E u = Inr art
   \<and> (\<exists>k. published_kst art = Some k \<and> date_of k = date_of today)"
proof (cases "parse_article E u")
  case (Inl e)
  then show ?thesis by (simp add: visit_def try_except_def bind_def)
next
  case (Inr a)
  show ?thesis
  proof (cases "published_kst a")
    case None
    with Inr show ?thesis by (auto simp: visit_def try_except_def bind_def)
  next
    case (Some k)
    with published_kst_resolved[OF Inr, of k] obtain d where
      "astimezone E d KST = Inr k" by auto
    then have "is_today_kst E k today = Inr (date_of k = date_of today)"
      using astimezone_kst_again by (simp add: is_today_kst_def bind_def)
    with Inr Some show ?thesis by (auto simp: visit_def try_except_def bind_def)
  qed
qed

lemma crawl_loop_result:
  "crawl_loop E today sl links acc = Inr res \<Longrightarrow>
   res = acc @ List.map_filter (\<lambda>u. case visit E today u of Inr r \<Rightarrow> r | Inl e \<Rightarrow> None) links"
proof (induction links arbitrary: acc)
  case Nil
  then show ?case by (simp add: List.map_filter_simps)
next
  case (Cons u rest)
  from Cons.prems obtain r where v: "visit E today u = Inr r"
    and c: "crawl_loop E today sl rest
              (case r of None \<Rightarrow> acc | Some art \<Rightarrow> acc @ [art]) = Inr res"
    by (auto dest!: bind_Inr)
  from Cons.IH[OF c] v show ?case
    by (cases r) (simp_all add: List.map_filter_simps)
qed

lemma crawl_loop_runs:
  "time_sleep sl = Inr () \<Longrightarrow>
   crawl_loop E today sl links acc =
     Inr (acc @ List.map_filter (\<lambda>u. case visit E today u of Inr r \<Rightarrow> r | Inl e \<Rightarrow> None) links)"
proof (induction links arbitrary: acc)
  case Nil
  then show ?case by (simp add: List.map_filter_simps)
next
  case (Cons u rest)
  obtain r where v: "visit E today u = Inr r" using visit_total by blast
  with Cons show ?case
    by (cases r) (simp_all add: bind_def List.map_filter_simps)
qed

lemma kept_iff:
  "(case visit E today u of Inr r \<Rightarrow> r | Inl e \<Rightarrow> None) = Some art
   \<longleftrightarrow> visit E today u = Inr (Some art)"
  by (cases "visit E today u") simp_all

section \<open>Articles of the reference day\<close>

text \<open>
  Claim C1. When \<open>crawl_today\<close> returns, an article is in the list if and only if it
  is the article \<open>parse_article\<close> extracts from one of the discovered links, the
  resolver found a date on that page, and this date converted to Asia/Seoul falls on
  the calendar day of the reference date (the date passed, or now in Seoul). No
  article of the list is without timestamps, and an article of a page on which the
  resolver found no date is not in the list.
\<close>

theorem today_filter_iff:
  assumes "crawl_today E cat today_kst limit sl = Inr results"
  shows "\<exists>links. get_article_links E cat limit = Inr links
     \<and> (\<forall>art. art \<in> set results \<longleftrightarrow>
          (\<exists>u \<in> set links. \<exists>html d k.
              fetch E u = Inr html
            \<and> published_dt E (html_parse E html) = Inr (Some d)
            \<and> astimezone E d KST = Inr k
            \<and> date_of k = date_of (case today_kst of None \<Rightarrow> now_kst E | Some t \<Rightarrow> t)
            \<and> parse_article E u = Inr art))
     \<and> (\<forall>art \<in> set results. published_kst art \<noteq> None \<and> published_utc art \<noteq> None)
     \<and> (\<forall>u html art. fetch E u = Inr html
            \<and> published_dt E (html_parse E html) = Inr None
            \<and> parse_article E u = Inr art \<longrightarrow> art \<notin> set results)"
proof -
  let ?today = "case today_kst of None \<Rightarrow> now_kst E | Some t \<Rightarrow> t"
  from assms obtain links where l: "get_article_links E cat limit = Inr links"
    and c: "crawl_loop E ?today sl links [] = Inr results"
    by (auto simp: crawl_today_def Let_def dest!: bind_Inr)
  from crawl_loop_result[OF c] have res: "\<And>art. art \<in> set results \<longleftrightarrow>
      (\<exists>u \<in> set links. visit E ?today u = Inr (Some art))"
    by (simp add: set_map_filter_iff kept_iff)
  have iff: "art \<in> set results \<longleftrightarrow>
          (\<exists>u \<in> set links. \<exists>html d k.
              fetch E u = Inr html
            \<and> published_dt E (html_parse E html) = Inr (Some d)
            \<and> astimezone E d KST = Inr k
            \<and> date_of k = date_of ?today
            \<and> parse_article E u = Inr art)" for art
  proof
    assume "art \<in> set results"
    with res obtain u where u: "u \<in> set links" and v: "visit E ?today u = Inr (Some art)"
      by blast
    from v obtain k where p: "parse_article E u = Inr art"
      and k: "published_kst art = Some k" "date_of k = date_of ?today"
      by (auto simp: visit_Some_iff)
    from k(1) published_kst_resolved[OF p, of k] obtain html d where
      "fetch E u = Inr html" "published_dt E (html_parse E html) = Inr (Some d)"
      "astimezone E d KST = Inr k" by auto
    with u p k show "\<exists>u \<in> set links. \<exists>html d k.
              fetch E u = Inr html
            \<and> published_dt E (html_parse E html) = Inr (Some d)
            \<and> astimezone E d KST = Inr k
            \<and> date_of k = date_of ?today
            \<and> parse_article E u = Inr art" by blast
  next
    assume "\<exists>u \<in> set links. \<exists>html d k.
              fetch E u = Inr html
            \<and> published_dt E (html_parse E html) = Inr (Some d)
            \<and> astimezone E d KST = Inr k
            \<and> date_of k = date_of ?today
            \<and> parse_article E u = Inr art"
    then obtain u html d k where u: "u \<in> set links"
      and h: "fetch E u = Inr html" "published_dt E (html_parse E html) = Inr (Some d)"
             "astimezone E d KST = Inr k"
      and dk: "date_of k = date_of ?today" and p: "parse_article E u = Inr art" by blast
    from h published_kst_resolved[OF p, of k] have "published_kst art = Some k" by blast
    with p dk have "visit E ?today u = Inr (Some art)" by (auto simp: visit_Some_iff)
    with u res show "art \<in> set results" by blast
  qed
  have stamped: "published_kst art \<noteq> None \<and> published_utc art \<noteq> None"
    if "art \<in> set results" for art
  proof -
    from that res obtain u where "visit E ?today u = Inr (Some art)" by blast
    then obtain k where p: "parse_article E u = Inr art" and "published_kst art = Some k"
      by (auto simp: visit_Some_iff)
    with stamps_together[OF p] show ?thesis by auto
  qed
  have unresolved: "art \<notin> set results"
    if "fetch E u = Inr html \<and> published_dt E (html_parse E html) = Inr None
        \<and> parse_article E u = Inr art" for u html art
  proof
    assume "art \<in> set results"
    with stamped obtain k where k: "published_kst art = Some k" by auto
    from that have p: "parse_article E u = Inr art" by simp
    from k published_kst_resolved[OF p, of k] that show False by auto
  qed
  have a: "\<forall>art. art \<in> set results \<longleftrightarrow>
          (\<exists>u \<in> set links. \<exists>html d k.
              fetch E u = Inr html
            \<and> published_dt E (html_parse E html) = Inr (Some d)
            \<and> astimezone E d KST = Inr k
            \<and> date_of k = date_of ?today
            \<and> parse_article E u = Inr art)"
    by (intro allI iff)
  have b: "\<forall>art \<in> set results. published_kst art \<noteq> None \<and> published_utc art \<noteq> None"
    by (intro ballI stamped)
  have c: "\<forall>u html art. fetch E u = Inr html
            \<and> published_dt E (html_parse E html) = Inr None
            \<and> parse_article E u = Inr art \<longrightarrow> art \<notin> set results"
    by (intro allI impI unresolved)
  show ?thesis
    by (rule exI[of _ links]) (intro conjI l a b c)
qed

text \<open>
  The example web on the reference day 10 September 2025 (Seoul): two links are
  discovered, the page of the first is dated that day, and it is the one article
  returned.
\<close>

theorem today_filter_iff_witness:
  "crawl_today sample_env CATEGORY_URL None 40 (Finite 0.7)
     = Inr [\<lparr>url = ''https://techcrunch.com/2025/09/10/alpha/'', title = ''Alpha'',
             published_utc = Some \<lparr>wall = 63893062800000000, utcoff = Some 0\<rparr>,
             published_kst = Some \<lparr>wall = 63893095200000000, utcoff = Some 32400000000\<rparr>,
             body = ''Body of alpha.''\<rparr>]
   \<and> get_article_links sample_env CATEGORY_URL 40
       = Inr [''https://techcrunch.com/2025/09/10/alpha/'',
              ''https://techcrunch.com/2025/09/10/beta/'']
   \<and> date_of \<lparr>wall = 63893095200000000, utcoff = Some 32400000000\<rparr>
       = date_of (now_kst sample_env)"
proof -
  define k where "k = \<lparr>wall = 63893095200000000, utcoff = Some 32400000000\<rparr>"
  define art where "art = \<lparr>url = ''https://techcrunch.com/2025/09/10/alpha/'', title = ''Alpha'',
             published_utc = Some \<lparr>wall = 63893062800000000, utcoff = Some 0\<rparr>,
             published_kst = Some k, body = ''Body of alpha.''\<rparr>"
  have c: "crawl_today sample_env CATEGORY_URL None 40 (Finite 0.7) = Inr [art]"
    unfolding art_def k_def by code_simp
  have l: "get_article_links sample_env CATEGORY_URL 40
       = Inr [''https://techcrunch.com/2025/09/10/alpha/'',
              ''https://techcrunch.com/2025/09/10/beta/'']" by code_simp
  from today_filter_iff[OF c] obtain links where
    "\<forall>a. a \<in> set [art] \<longleftrightarrow>
          (\<exists>u \<in> set links. \<exists>html d k.
              fetch sample_env u = Inr html
            \<and> published_dt sample_env (html_parse sample_env html) = Inr (Some d)
            \<and> astimezone sample_env d KST = Inr k
            \<and> date_of k = date_of (case None of None \<Rightarrow> now_kst sample_env | Some t \<Rightarrow> t)
            \<and> parse_article sample_env u = Inr a)"
    by blast
  from this[THEN spec, of art] have "\<exists>u \<in> set links. \<exists>html d k.
              fetch sample_env u = Inr html
            \<and> published_dt sample_env (html_parse sample_env html) = Inr (Some d)
            \<and> astimezone sample_env d KST = Inr k
            \<and> date_of k = date_of (case None of None \<Rightarrow> now_kst sample_env | Some t \<Rightarrow> t)
            \<and> parse_article sample_env u = Inr art"
    by simp
  then obtain u html d k' where h: "fetch sample_env u = Inr html"
      "published_dt sample_env (html_parse sample_env html) = Inr (Some d)"
      "astimezone sample_env d KST = Inr k'"
    and dk: "date_of k' = date_of (now_kst sample_env)"
    and p: "parse_article sample_env u = Inr art" by auto
  from h published_kst_resolved[OF p, of k'] have "published_kst art = Some k'" by blast
  then have "k' = k" by (simp add: art_def)
  with dk have "date_of k = date_of (now_kst sample_env)" by simp
  with c l show ?thesis unfolding art_def k_def by simp
qed

section \<open>Query string and request body\<close>

text \<open>
  Claim C2 against the code. A POST request carries \<open>date=2025-09-10\<close> in the query
  string and \<open>{"date": "2025-09-11"}\<close> in its body. The handler keeps the date of the
  body: the response is the one for 11 September (day 739505, no article), not the
  one for 10 September that the query string alone gives (day 739504, one article).
\<close>

theorem body_overrides_query:
  "collect_params sample_env
       (post_request [(''date'', ''2025-09-10'')] (JObj [(''date'', JStr ''2025-09-11'')]))
     = Inr \<lparr>date_str = JStr ''2025-09-11'', limit_str = None, sleep_str = None,
             category_url = JStr CATEGORY_URL\<rparr>
   \<and> ai_today sample_env
         (post_request [(''date'', ''2025-09-10'')] (JObj [(''date'', JStr ''2025-09-11'')]))
       = \<lparr>status_code = 200, content = OkBody 739505 0 []\<rparr>
   \<and> (case content (ai_today sample_env (get_request [(''date'', ''2025-09-10'')])) of
         OkBody day n items \<Rightarrow> day = 739504 \<and> n = 1
       | ErrorBody msg detail \<Rightarrow> False)"
  by code_simp

section \<open>Order of the discovered links\<close>

text \<open>
  Claim C3, as stated, fails. The links of the default category page are discovered
  in the order alpha, beta. With a set that lists its elements in the order they were
  added the result is alpha, beta; with a set that lists them the other way round,
  which is as good an iteration order for a Python set of strings, the same page and
  limit give beta, alpha: the order is neither fixed by the markup nor the order of
  discovery.
\<close>

theorem link_order_counterexample:
  "collect_links sample_env category_page 40
     = Inr [''https://techcrunch.com/2025/09/10/alpha/'',
            ''https://techcrunch.com/2025/09/10/beta/'']
   \<and> get_article_links sample_env CATEGORY_URL 40
       = Inr [''https://techcrunch.com/2025/09/10/alpha/'',
              ''https://techcrunch.com/2025/09/10/beta/'']
   \<and> get_article_links (sample_env\<lparr>set_order := rev\<rparr>) CATEGORY_URL 40
       = Inr [''https://techcrunch.com/2025/09/10/beta/'',
              ''https://techcrunch.com/2025/09/10/alpha/'']"
  by code_simp

text \<open>
  Claim C3, amended. Link discovery returns a list without duplicates: the set
  collected by the two passes, listed in the iteration order of that set and cut to
  \<open>limit\<close>. Every returned URL is in the collected set, a non-negative limit gives
  the smaller of \<open>limit\<close> and the size of the set as length, and when the set has
  at most \<open>limit\<close> elements all of them are returned.
\<close>

theorem links_deduplicated_in_set_order:
  assumes "set_order_ok E" and "get_article_links E cat limit = Inr ys"
  shows "\<exists>html links. fetch E cat = Inr html
           \<and> collect_links E (html_parse E html) limit = Inr links
           \<and> distinct links
           \<and> ys = slice_to limit (set_order E links)
           \<and> distinct ys \<and> set ys \<subseteq> set links
           \<and> (0 \<le> limit \<longrightarrow> length ys = min (nat limit) (length links))
           \<and> (int (length links) \<le> limit \<longrightarrow> mset ys = mset links)"
proof -
  from get_article_links_parts[OF assms(2)] obtain html links where
    f: "fetch E cat = Inr html"
    and c: "collect_links E (html_parse E html) limit = Inr links"
    and y: "ys = slice_to limit (set_order E links)" by blast
  from collect_links_inv[OF c] have d: "distinct links" by simp
  note so = set_order_props[OF assms(1) d]
  from y so(1) have dy: "distinct ys" by (simp add: slice_to_props(1))
  from y so(2) slice_to_props(2)[of limit "set_order E links"]
  have sub: "set ys \<subseteq> set links" by simp
  from y so(3) have len: "0 \<le> limit \<longrightarrow> length ys = min (nat limit) (length links)"
    by (simp add: slice_to_props(3))
  have all: "int (length links) \<le> limit \<longrightarrow> mset ys = mset links"
  proof
    assume "int (length links) \<le> limit"
    with so(3) have "slice_to limit (set_order E links) = set_order E links"
      by (simp add: slice_to_props(4))
    with y assms(1) d show "mset ys = mset links" by (simp add: set_order_ok_def)
  qed
  from f c d y dy sub len all show ?thesis by blast
qed

text \<open>The default category page with the set listed in reverse.\<close>

theorem links_deduplicated_in_set_order_witness:
  "set_order_ok (sample_env\<lparr>set_order := rev\<rparr>)
   \<and> get_article_links (sample_env\<lparr>set_order := rev\<rparr>) CATEGORY_URL 40
       = Inr [''https://techcrunch.com/2025/09/10/beta/'',
              ''https://techcrunch.com/2025/09/10/alpha/'']
   \<and> distinct [''https://techcrunch.com/2025/09/10/beta/'',
                ''https://techcrunch.com/2025/09/10/alpha/'']"
proof -
  define ys where "ys = [''https://techcrunch.com/2025/09/10/beta/'',
                         ''https://techcrunch.com/2025/09/10/alpha/'']"
  have ok: "set_order_ok (sample_env\<lparr>set_order := rev\<rparr>)"
    by (simp add: set_order_ok_def)
  have g: "get_article_links (sample_env\<lparr>set_order := rev\<rparr>) CATEGORY_URL 40 = Inr ys"
    unfolding ys_def by code_simp
  from links_deduplicated_in_set_order[OF ok g] have "distinct ys" by blast
  with ok g show ?thesis unfolding ys_def by simp
qed

section \<open>Normalisation and the article-URL predicate\<close>

text \<open>
  Claim C4, as stated, fails. The listing page \<open>https://news.example.org/ai/\<close> links
  to \<open>/2025/09/10/local/\<close> and to an article on \<open>nottechcrunch.com.example.org\<close>.
  The first href is resolved against the default category URL, not against the page
  it was found on; the second is accepted although its host is not the host of the
  category page and the link is not host-relative.
\<close>

theorem normalisation_predicate_counterexample:
  "get_article_links sample_env ''https://news.example.org/ai/'' 40
     = Inr [''https://techcrunch.com/2025/09/10/local/'',
            ''https://nottechcrunch.com.example.org/2025/09/10/x/'']
   \<and> urljoin (netloc_rejected sample_env) ''https://news.example.org/ai/'' ''/2025/09/10/local/''
       = Inr ''https://news.example.org/2025/09/10/local/''
   \<and> is_article_url sample_env ''https://nottechcrunch.com.example.org/2025/09/10/x/''
   \<and> urlparse (netloc_rejected sample_env)
         ''https://nottechcrunch.com.example.org/2025/09/10/x/'' []
       = Inr \<lparr>scheme = ''https'', netloc = ''nottechcrunch.com.example.org'',
              path = ''/2025/09/10/x/'', params = [], query = [], fragment = []\<rparr>"
  by code_simp

text \<open>
  Claim C4, amended. The predicate, applied to an href as written, accepts it only
  if the href parses, its netloc is empty or contains \<open>techcrunch.com\<close> somewhere, and
  its path contains \<open>/20\<close>, two digits, \<open>/\<close>, two digits and \<open>/\<close>. Every URL that
  link discovery puts into its set is the join with the default category URL, whatever
  page was fetched, of the href of an anchor of that page which the predicate
  accepts. When the set ends with fewer than \<open>limit\<close> URLs it is exactly the set of
  these joins: every accepted href of the page has been resolved, against the
  default category URL, and added. The same holds of the list that link discovery
  returns for a category URL, with the page fetched from that URL.
\<close>

theorem normalisation_and_predicate:
  "(is_article_url E href \<longrightarrow>
      (\<exists>u. urlparse (netloc_rejected E) href [] = Inr u
         \<and> (netloc u = [] \<or> (\<exists>pre post. netloc u = pre @ ''techcrunch.com'' @ post))
         \<and> (\<exists>pre y1 y2 m1 m2 rest.
               path u = pre @ ''/20'' @ [y1, y2] @ ''/'' @ [m1, m2] @ ''/'' @ rest
             \<and> is_digit y1 \<and> is_digit y2 \<and> is_digit m1 \<and> is_digit m2)))
   \<and> (collect_links E soup limit = Inr links \<longrightarrow>
        set links \<subseteq> {y. \<exists>h \<in> set (anchor_hrefs soup). is_article_url E h
                           \<and> urljoin (netloc_rejected E) CATEGORY_URL h = Inr y}
        \<and> (int (length links) < limit \<longrightarrow>
             set links = {y. \<exists>h \<in> set (anchor_hrefs soup). is_article_url E h
                               \<and> urljoin (netloc_rejected E) CATEGORY_URL h = Inr y}))
   \<and> (set_order_ok E \<and> get_article_links E cat limit = Inr ys \<longrightarrow>
        (\<exists>html. fetch E cat = Inr html
           \<and> set ys \<subseteq> {y. \<exists>h \<in> set (anchor_hrefs (html_parse E html)). is_article_url E h
                              \<and> urljoin (netloc_rejected E) CATEGORY_URL h = Inr y}
           \<and> (int (length ys) < limit \<longrightarrow>
                set ys = {y. \<exists>h \<in> set (anchor_hrefs (html_parse E html)). is_article_url E h
                               \<and> urljoin (netloc_rejected E) CATEGORY_URL h = Inr y})))"
proof (intro conjI impI)
  assume a: "is_article_url E href"
  then obtain u where u: "urlparse (netloc_rejected E) href [] = Inr u"
    and n: "str_in ''techcrunch.com'' (netloc u) \<or> netloc u = []"
    and p: "search_year_month (path u)"
    by (cases "urlparse (netloc_rejected E) href []") (auto simp: is_article_url_def)
  from n str_in_shape[of "''techcrunch.com''" "netloc u"]
  have "netloc u = [] \<or> (\<exists>pre post. netloc u = pre @ ''techcrunch.com'' @ post)" by blast
  with u search_year_month_shape[OF p]
  show "\<exists>u. urlparse (netloc_rejected E) href [] = Inr u
         \<and> (netloc u = [] \<or> (\<exists>pre post. netloc u = pre @ ''techcrunch.com'' @ post))
         \<and> (\<exists>pre y1 y2 m1 m2 rest.
               path u = pre @ ''/20'' @ [y1, y2] @ ''/'' @ [m1, m2] @ ''/'' @ rest
             \<and> is_digit y1 \<and> is_digit y2 \<and> is_digit m1 \<and> is_digit m2)"
    by blast
next
  assume c: "collect_links E soup limit = Inr links"
  from collect_links_joins(1)[OF c]
  show "set links \<subseteq> {y. \<exists>h \<in> set (anchor_hrefs soup). is_article_url E h
                           \<and> urljoin (netloc_rejected E) CATEGORY_URL h = Inr y}" .
  assume "int (length links) < limit"
  from collect_links_joins(2)[OF c this]
  show "set links = {y. \<exists>h \<in> set (anchor_hrefs soup). is_article_url E h
                               \<and> urljoin (netloc_rejected E) CATEGORY_URL h = Inr y}" .
next
  assume a: "set_order_ok E \<and> get_article_links E cat limit = Inr ys"
  then have ok: "set_order_ok E" and g: "get_article_links E cat limit = Inr ys" by simp_all
  from get_article_links_parts[OF g] obtain html found where
    f: "fetch E cat = Inr html"
    and c: "collect_links E (html_parse E html) limit = Inr found"
    and y: "ys = slice_to limit (set_order E found)" by blast
  define J where "J = {y. \<exists>h \<in> set (anchor_hrefs (html_parse E html)). is_article_url E h
                              \<and> urljoin (netloc_rejected E) CATEGORY_URL h = Inr y}"
  from collect_links_joins[OF c] have sub: "set found \<subseteq> J"
    and eq: "int (length found) < limit \<Longrightarrow> set found = J"
    by (simp_all add: J_def)
  from collect_links_inv[OF c] have d: "distinct found" by simp
  note so = set_order_props[OF ok d]
  from y so(2) slice_to_props(2)[of limit "set_order E found"] sub
  have s1: "set ys \<subseteq> J" by blast
  have s2: "set ys = J" if l: "int (length ys) < limit"
  proof -
    from l have n: "0 \<le> limit" by simp
    from y so(3) slice_to_props(3)[OF n, of "set_order E found"]
    have "length ys = min (nat limit) (length found)" by simp
    with l have m: "int (length found) < limit" by (simp add: min_def split: if_splits)
    with so(3) have "int (length (set_order E found)) \<le> limit" by simp
    from slice_to_props(4)[OF this] y so(2) have "set ys = set found" by simp
    with eq[OF m] show ?thesis by simp
  qed
  from f s1 s2
  show "\<exists>html. fetch E cat = Inr html
           \<and> set ys \<subseteq> {y. \<exists>h \<in> set (anchor_hrefs (html_parse E html)). is_article_url E h
                              \<and> urljoin (netloc_rejected E) CATEGORY_URL h = Inr y}
           \<and> (int (length ys) < limit \<longrightarrow>
                set ys = {y. \<exists>h \<in> set (anchor_hrefs (html_parse E html)). is_article_url E h
                               \<and> urljoin (netloc_rejected E) CATEGORY_URL h = Inr y})"
    unfolding J_def by blast
qed

text \<open>
  The page on the other site, \<open>https://news.example.org/ai/\<close>: its two hrefs are
  accepted, and the set and the list returned hold their joins with the default
  category URL and nothing else.
\<close>

theorem normalisation_and_predicate_witness:
  "is_article_url sample_env ''/2025/09/10/local/''
   \<and> (\<exists>u. urlparse (netloc_rejected sample_env) ''/2025/09/10/local/'' [] = Inr u
          \<and> (netloc u = [] \<or> (\<exists>pre post. netloc u = pre @ ''techcrunch.com'' @ post)))
   \<and> anchor_hrefs news_page
       = [''/2025/09/10/local/'', ''https://nottechcrunch.com.example.org/2025/09/10/x/'']
   \<and> collect_links sample_env news_page 40
       = Inr [''https://techcrunch.com/2025/09/10/local/'',
              ''https://nottechcrunch.com.example.org/2025/09/10/x/'']
   \<and> set_order_ok sample_env
   \<and> fetch sample_env ''https://news.example.org/ai/'' = Inr ''news''
   \<and> html_parse sample_env ''news'' = news_page
   \<and> get_article_links sample_env ''https://news.example.org/ai/'' 40
       = Inr [''https://techcrunch.com/2025/09/10/local/'',
              ''https://nottechcrunch.com.example.org/2025/09/10/x/'']
   \<and> set [''https://techcrunch.com/2025/09/10/local/'',
           ''https://nottechcrunch.com.example.org/2025/09/10/x/'']
       = {y. \<exists>h \<in> set (anchor_hrefs news_page). is_article_url sample_env h
               \<and> urljoin (netloc_rejected sample_env) CATEGORY_URL h = Inr y}"
proof -
  define ys where "ys = [''https://techcrunch.com/2025/09/10/local/'',
                         ''https://nottechcrunch.com.example.org/2025/09/10/x/'']"
  define J where "J = {y. \<exists>h \<in> set (anchor_hrefs news_page). is_article_url sample_env h
               \<and> urljoin (netloc_rejected sample_env) CATEGORY_URL h = Inr y}"
  note inst = normalisation_and_predicate[of sample_env "''/2025/09/10/local/''" news_page 40 ys
                 "''https://news.example.org/ai/''" ys]
  have a: "is_article_url sample_env ''/2025/09/10/local/''" by code_simp
  have h: "anchor_hrefs news_page
       = [''/2025/09/10/local/'', ''https://nottechcrunch.com.example.org/2025/09/10/x/'']"
    by code_simp
  have c: "collect_links sample_env news_page 40 = Inr ys" unfolding ys_def by code_simp
  have ok: "set_order_ok sample_env" by (simp add: set_order_ok_def sample_env_def)
  have f: "fetch sample_env ''https://news.example.org/ai/'' = Inr ''news''" by code_simp
  have hp: "html_parse sample_env ''news'' = news_page" by code_simp
  have g: "get_article_links sample_env ''https://news.example.org/ai/'' 40 = Inr ys"
    unfolding ys_def by code_simp
  have l: "int (length ys) < 40" by (simp add: ys_def)
  from inst a
  have p: "\<exists>u. urlparse (netloc_rejected sample_env) ''/2025/09/10/local/'' [] = Inr u
          \<and> (netloc u = [] \<or> (\<exists>pre post. netloc u = pre @ ''techcrunch.com'' @ post))"
    by blast
  from inst c l have e1: "set ys = J" unfolding J_def by blast
  from inst ok g l f hp have e2: "set ys = J" unfolding J_def by auto
  from a p h c ok f hp g e1 e2 show ?thesis unfolding ys_def J_def by blast
qed

section \<open>Precedence of the meta tag\<close>

text \<open>
  Claim C5, as stated, fails: \<open>two_meta_page\<close> contains a meta tag
  \<open>article:published_time\<close> whose content is a valid date (10 September) and a JSON-LD
  block with another date (9 September), and the resolver returns the JSON-LD date,
  because an earlier meta tag of the same property has a content that cannot be read
  and \<open>soup.find\<close> looks at the first tag only.
\<close>

theorem meta_tag_precedence_counterexample:
  "Tag ''meta'' [(''property'', ''article:published_time''), (''content'', ''2025-09-10T01:00:00Z'')] []
     \<in> set (find_all two_meta_page ''meta'')
   \<and> parse_iso sample_env ''2025-09-10T01:00:00Z''
       = Inr (Some \<lparr>wall = 63893062800000000, utcoff = Some 0\<rparr>)
   \<and> get_ldjson_datetime sample_env two_meta_page
       = Inr (Some \<lparr>wall = 63892976400000000, utcoff = Some 0\<rparr>)
   \<and> published_dt sample_env two_meta_page
       = Inr (Some \<lparr>wall = 63892976400000000, utcoff = Some 0\<rparr>)"
  by code_simp

text \<open>
  Claim C5, amended. When the first meta tag with the property
  \<open>article:published_time\<close> (the first with that name when no tag has the property)
  has a content that \<open>fromisoformat\<close> reads, the resolver returns that date, whatever
  the JSON-LD blocks, the \<open>time\<close> tag and the page text say.
\<close>

theorem first_meta_tag_wins:
  assumes "meta_tag soup ''article:published_time'' = Some tag"
    and "get_attr tag ''content'' = Some c"
    and "c \<noteq> []"
    and "fromisoformat E (replace_Z c) = Inr d"
  shows "published_dt E soup = Inr (Some d)"
proof -
  have "get_meta_datetime E soup ''article:published_time'' = Inr (Some d)"
    using assms
    by (simp add: get_meta_datetime_def meta_tag_def parse_iso_def try_except_def bind_def)
  then show ?thesis by (simp add: published_dt_def or_else_def bind_def)
qed

text \<open>
  The page \<open>alpha_page\<close>: its meta tag says 10 September, its JSON-LD block
  9 September, and the resolver returns 10 September.
\<close>

theorem first_meta_tag_wins_witness:
  "meta_tag alpha_page ''article:published_time''
     = Some (Tag ''meta'' [(''property'', ''article:published_time''),
                          (''content'', ''2025-09-10T01:00:00Z'')] [])
   \<and> fromisoformat sample_env (replace_Z ''2025-09-10T01:00:00Z'')
       = Inr \<lparr>wall = 63893062800000000, utcoff = Some 0\<rparr>
   \<and> get_ldjson_datetime sample_env alpha_page
       = Inr (Some \<lparr>wall = 63892976400000000, utcoff = Some 0\<rparr>)
   \<and> published_dt sample_env alpha_page
       = Inr (Some \<lparr>wall = 63893062800000000, utcoff = Some 0\<rparr>)"
proof -
  let ?tag = "Tag ''meta'' [(''property'', ''article:published_time''),
                          (''content'', ''2025-09-10T01:00:00Z'')] []"
  have m: "meta_tag alpha_page ''article:published_time'' = Some ?tag" by code_simp
  have a: "get_attr ?tag ''content'' = Some ''2025-09-10T01:00:00Z''" by code_simp
  have n: "''2025-09-10T01:00:00Z'' \<noteq> []" by simp
  have f: "fromisoformat sample_env (replace_Z ''2025-09-10T01:00:00Z'')
       = Inr \<lparr>wall = 63893062800000000, utcoff = Some 0\<rparr>" by code_simp
  have l: "get_ldjson_datetime sample_env alpha_page
       = Inr (Some \<lparr>wall = 63892976400000000, utcoff = Some 0\<rparr>)" by code_simp
  from first_meta_tag_wins[OF m a n f] m f l show ?thesis by simp
qed

section \<open>The list of links\<close>

text \<open>
  Claim C6, as stated, fails. The page \<open>https://techcrunch.com/tag/archive/\<close> links
  to \<open>/2025/09/../x\<close>. The href satisfies the predicate, which is applied before the
  join; the join removes the dot segment, and the URL returned does not satisfy the
  predicate. (A negative limit also breaks the bound: a slice \<open>[:limit]\<close> then drops
  elements from the end.)
\<close>

theorem links_predicate_counterexample:
  "is_article_url sample_env ''/2025/09/../x''
   \<and> get_article_links sample_env ''https://techcrunch.com/tag/archive/'' 40
       = Inr [''https://techcrunch.com/2025/x'']
   \<and> \<not> is_article_url sample_env ''https://techcrunch.com/2025/x''"
  by code_simp

text \<open>
  Claim C6, amended. For a limit that is not negative, the list returned by link
  discovery has at most \<open>limit\<close> elements and no two are equal; each element is an
  absolute URL, and each is the normalisation (the join with the default category
  URL) of the href of an anchor of the fetched page that satisfies the article-URL
  predicate.
\<close>

theorem links_bounded_absolute_distinct:
  assumes "set_order_ok E" and "0 \<le> limit" and "get_article_links E cat limit = Inr ys"
  shows "int (length ys) \<le> limit \<and> distinct ys
         \<and> (\<exists>html. fetch E cat = Inr html
              \<and> (\<forall>y \<in> set ys. is_absolute y
                    \<and> (\<exists>h \<in> set (anchor_hrefs (html_parse E html)).
                          is_article_url E h \<and> normalize_link E h = Inr y)))"
proof -
  from get_article_links_parts[OF assms(3)] obtain html links where
    f: "fetch E cat = Inr html"
    and c: "collect_links E (html_parse E html) limit = Inr links"
    and y: "ys = slice_to limit (set_order E links)" by blast
  from collect_links_inv[OF c] have d: "distinct links"
    and n: "\<forall>y \<in> set links. \<exists>h \<in> set (anchor_hrefs (html_parse E html)).
              is_article_url E h \<and> normalize_link E h = Inr y"
    by simp_all
  note so = set_order_props[OF assms(1) d]
  from y assms(2) have len: "int (length ys) \<le> limit" by (simp add: slice_to_props(3))
  from y so(1) have dy: "distinct ys" by (simp add: slice_to_props(1))
  from y so(2) slice_to_props(2)[of limit "set_order E links"]
  have sub: "set ys \<subseteq> set links" by simp
  have "is_absolute y \<and> (\<exists>h \<in> set (anchor_hrefs (html_parse E html)).
                            is_article_url E h \<and> normalize_link E h = Inr y)"
    if "y \<in> set ys" for y
  proof -
    from that sub n obtain h where h: "h \<in> set (anchor_hrefs (html_parse E html))"
      "is_article_url E h" "normalize_link E h = Inr y"
      by blast
    from normalize_link_absolute[OF h(3)] h show ?thesis by blast
  qed
  with len dy f show ?thesis by blast
qed

text \<open>
  The default category page with the limit 1: one absolute URL, the normalisation of
  the first href of the page.
\<close>

theorem links_bounded_absolute_distinct_witness:
  "set_order_ok sample_env \<and> (0::int) \<le> 1
   \<and> get_article_links sample_env CATEGORY_URL 1
       = Inr [''https://techcrunch.com/2025/09/10/alpha/'']
   \<and> is_absolute ''https://techcrunch.com/2025/09/10/alpha/''
   \<and> anchor_hrefs category_page
       = [''/2025/09/10/alpha/'', ''https://techcrunch.com/2025/09/10/beta/'', ''/about/'']
   \<and> normalize_link sample_env ''/2025/09/10/alpha/''
       = Inr ''https://techcrunch.com/2025/09/10/alpha/''"
proof -
  define ys where "ys = [''https://techcrunch.com/2025/09/10/alpha/'']"
  have ok: "set_order_ok sample_env" by (simp add: set_order_ok_def sample_env_def)
  have g: "get_article_links sample_env CATEGORY_URL 1 = Inr ys"
    unfolding ys_def by code_simp
  have a: "anchor_hrefs category_page
       = [''/2025/09/10/alpha/'', ''https://techcrunch.com/2025/09/10/beta/'', ''/about/'']"
    by code_simp
  have n: "normalize_link sample_env ''/2025/09/10/alpha/''
       = Inr ''https://techcrunch.com/2025/09/10/alpha/''" by code_simp
  from links_bounded_absolute_distinct[OF ok _ g]
  have "\<forall>y \<in> set ys. is_absolute y" by auto
  then have "is_absolute ''https://techcrunch.com/2025/09/10/alpha/''" by (simp add: ys_def)
  with ok g a n show ?thesis unfolding ys_def by simp
qed

section \<open>The timestamp resolver does not raise\<close>

lemma get_meta_datetime_total: "\<exists>r. get_meta_datetime E soup prop = Inr r"
  by (auto simp: get_meta_datetime_def try_except_none split: option.splits)

lemma ldjson_datetime_loop_total: "\<exists>r. ldjson_datetime_loop E ss = Inr r"
proof (induction ss)
  case Nil
  show ?case by simp
next
  case (Cons s ss)
  obtain r where "try_except (bind (script_json E s) (\<lambda>data. scan_dates E (candidates data)))
             (\<lambda>e. Inr None) = Inr r"
    using try_except_none by blast
  with Cons show ?case by (cases r) (simp_all add: bind_def)
qed

lemma parse_human_datetime_total: "\<exists>r. parse_human_datetime text = Inr r"
  by (auto simp: parse_human_datetime_def try_except_none split: option.splits prod.splits)

lemma time_attr_total:
  "\<exists>r. (case v of None \<Rightarrow> Inr None
        | Some c \<Rightarrow> if c = [] then Inr None
                    else try_except (parse_iso E c) (\<lambda>e. Inr None)) = Inr r"
  by (simp add: try_except_none split: option.splits)

lemma get_time_tag_datetime_total: "\<exists>r. get_time_tag_datetime E soup = Inr r"
proof (cases "find_first soup ''time''")
  case None
  then show ?thesis by (simp add: get_time_tag_datetime_def)
next
  case (Some t)
  obtain r where r: "(case get_attr t ''datetime'' of None \<Rightarrow> Inr None
        | Some c \<Rightarrow> if c = [] then Inr None
                    else try_except (parse_iso E c) (\<lambda>e. Inr None)) = Inr r"
    using time_attr_total by blast
  show ?thesis
    using Some r parse_human_datetime_total[of "get_text t '' ''"]
    by (cases r) (auto simp: get_time_tag_datetime_def bind_def)
qed

lemma or_else_total:
  "\<exists>r. a = Inr r \<Longrightarrow> \<exists>r. b = Inr r \<Longrightarrow> \<exists>r. or_else a b = Inr r"
  by (auto simp: or_else_def bind_def split: option.splits)

lemma published_dt_total: "\<exists>r. published_dt E soup = Inr r"
  unfolding published_dt_def get_text_datetime_fallback_def get_ldjson_datetime_def
  by (intro or_else_total get_meta_datetime_total ldjson_datetime_loop_total
        get_time_tag_datetime_total parse_human_datetime_total)

lemma bad_iso_none:
  "bad_iso E v \<Longrightarrow>
   (case v of None \<Rightarrow> Inr None
    | Some c \<Rightarrow> if c = [] then Inr None
                else try_except (parse_iso E c) (\<lambda>e. Inr None)) = Inr None"
  by (auto simp: bad_iso_def parse_iso_def try_except_def bind_def isl_def split: option.splits)

lemma type_recognised_true:
  "type_recognised v = Inr True \<Longrightarrow> \<exists>ty. v = JStr ty \<and> ty \<in> set article_types"
  by (cases v) simp_all

lemma scan_head_undated:
  assumes "\<not> carries_date E (JObj kvs)"
  shows "scan_dates E (JObj kvs # rest) = scan_dates E rest
         \<or> isl (scan_dates E (JObj kvs # rest))"
proof (cases "type_recognised (dict_get kvs ''@type'')")
  case (Inl e)
  then show ?thesis by (simp add: bind_def)
next
  case (Inr r)
  define dp where "dp = py_or (dict_get kvs ''datePublished'') (dict_get kvs ''dateCreated'')"
  show ?thesis
  proof (cases "r \<and> truthy dp")
    case False
    with Inr show ?thesis by (auto simp: bind_def Let_def dp_def)
  next
    case True
    with Inr have "type_recognised (dict_get kvs ''@type'') = Inr True" by simp
    from type_recognised_true[OF this] obtain ty where
      ty: "dict_get kvs ''@type'' = JStr ty" "ty \<in> set article_types" by blast
    have s: "scan_dates E (JObj kvs # rest)
             = (case dp of JStr s \<Rightarrow> parse_iso E s | _ \<Rightarrow> Inl AttributeError)"
      using Inr True by (simp add: bind_def Let_def dp_def)
    show ?thesis
    proof (cases dp)
      case (JStr d)
      with True have "d \<noteq> []" by simp
      with assms ty JStr have "isl (fromisoformat E (replace_Z d))"
        by (simp add: carries_date_def dp_def)
      with s JStr show ?thesis by (auto simp: parse_iso_def bind_def isl_def)
    qed (use s in simp_all)
  qed
qed

lemma scan_undated:
  "list_all (\<lambda>obj. \<not> carries_date E obj) objs \<Longrightarrow>
   scan_dates E objs = Inr None \<or> isl (scan_dates E objs)"
proof (induction objs)
  case Nil
  show ?case by simp
next
  case (Cons x xs)
  then have ih: "scan_dates E xs = Inr None \<or> isl (scan_dates E xs)"
    and nc: "\<not> carries_date E x" by simp_all
  show ?case
  proof (cases x)
    case (JObj kvs)
    with nc scan_head_undated[of E kvs xs] ih show ?thesis by auto
  qed (use ih in simp_all)
qed

lemma undated_block_none:
  assumes "undated_block E s"
  shows "try_except (bind (script_json E s) (\<lambda>data. scan_dates E (candidates data)))
           (\<lambda>e. Inr None) = Inr None"
proof (cases "script_json E s")
  case (Inl e)
  then show ?thesis by (simp add: bind_def try_except_def)
next
  case (Inr data)
  with assms have "list_all (\<lambda>obj. \<not> carries_date E obj) (candidates data)"
    by (simp add: undated_block_def)
  from scan_undated[OF this] Inr show ?thesis
    by (auto simp: bind_def try_except_def isl_def)
qed

lemma ldjson_loop_undated:
  "list_all (undated_block E) ss \<Longrightarrow> ldjson_datetime_loop E ss = Inr None"
proof (induction ss)
  case Nil
  show ?case by simp
next
  case (Cons s ss)
  then have "undated_block E s" and ih: "ldjson_datetime_loop E ss = Inr None" by simp_all
  from undated_block_none[OF this(1)] ih show ?case
    unfolding ldjson_datetime_loop.simps by (simp add: bind_def)
qed

lemma no_text_date_none: "no_text_date text \<Longrightarrow> parse_human_datetime text = Inr None"
  by (auto simp: no_text_date_def parse_human_datetime_def bind_def try_except_def isl_def
        split: option.splits)

lemma lacks_meta:
  assumes "lacks_timestamp E soup"
  shows "get_meta_datetime E soup ''article:published_time'' = Inr None"
proof (cases "meta_tag soup ''article:published_time''")
  case None
  then show ?thesis by (simp add: get_meta_datetime_def meta_tag_def)
next
  case (Some tag)
  with assms have "bad_iso E (get_attr tag ''content'')" by (simp add: lacks_timestamp_def)
  from bad_iso_none[OF this] Some show ?thesis
    by (simp add: get_meta_datetime_def meta_tag_def)
qed

lemma lacks_time:
  assumes "lacks_timestamp E soup"
  shows "get_time_tag_datetime E soup = Inr None"
proof (cases "find_first soup ''time''")
  case None
  then show ?thesis by (simp add: get_time_tag_datetime_def)
next
  case (Some t)
  with assms have b: "bad_iso E (get_attr t ''datetime'')"
    and s: "no_text_date (get_text t '' '')" by (simp_all add: lacks_timestamp_def)
  from bad_iso_none[OF b] no_text_date_none[OF s] Some show ?thesis
    by (simp add: get_time_tag_datetime_def bind_def)
qed

text \<open>
  Claim C7. On every page the timestamp resolver returns a value and raises nothing;
  on a page whose four sources are each missing or malformed the value is None. A
  source is malformed when it is there and yields no date: a meta content or a \<open>time\<close>
  attribute that is empty or that \<open>fromisoformat\<close> refuses, a JSON-LD block that
  \<open>json.loads\<close> refuses or in which no object of an article type holds a date that
  \<open>fromisoformat\<close> reads, a text in which the month-day-year pattern does not occur or
  occurs first with a day that the month does not have.
\<close>

theorem published_dt_never_raises:
  "(\<exists>r. published_dt E soup = Inr r)
   \<and> (lacks_timestamp E soup \<longrightarrow> published_dt E soup = Inr None)"
proof (intro conjI impI)
  show "\<exists>r. published_dt E soup = Inr r" by (rule published_dt_total)
next
  assume l: "lacks_timestamp E soup"
  then have "ldjson_datetime_loop E (ldjson_scripts soup) = Inr None"
    and "parse_human_datetime (get_text soup '' '') = Inr None"
    by (simp_all add: lacks_timestamp_def ldjson_loop_undated no_text_date_none)
  with lacks_meta[OF l] lacks_time[OF l] show "published_dt E soup = Inr None"
    by (simp add: published_dt_def or_else_def bind_def get_ldjson_datetime_def
          get_text_datetime_fallback_def)
qed

text \<open>
  Two pages. On the first the four sources are refused by their parsers. On the
  second the meta content is empty, the JSON-LD block parses and its article carries
  the date \<open>yesterday\<close>, the \<open>time\<close> tag has no attribute, and the only date of the text
  is 30 February. The resolver returns None on both.
\<close>

theorem published_dt_never_raises_witness:
  "lacks_timestamp sample_env broken_page \<and> published_dt sample_env broken_page = Inr None
   \<and> lacks_timestamp sample_env undated_page
   \<and> published_dt sample_env undated_page = Inr None"
proof -
  have l: "lacks_timestamp sample_env broken_page" by code_simp
  have m: "lacks_timestamp sample_env undated_page" by code_simp
  from l m published_dt_never_raises[of sample_env broken_page]
    published_dt_never_raises[of sample_env undated_page]
  show ?thesis by simp
qed

section \<open>Failures of single articles and of the category page\<close>

lemma clamp_sleep_ok: "clamp_sleep f \<noteq> NaN \<Longrightarrow> time_sleep (clamp_sleep f) = Inr ()"
  by (cases f) (auto split: if_splits)

lemma parse_sleep_ok: "parse_sleep E s \<noteq> NaN \<Longrightarrow> time_sleep (parse_sleep E s) = Inr ()"
  by (auto simp: parse_sleep_def clamp_sleep_ok split: option.splits sum.splits)

lemma visit_skips_failure: "parse_article E u = Inl e \<Longrightarrow> visit E today u = Inr None"
  by (simp add: visit_def try_except_def bind_def)

lemma crawl_today_runs:
  assumes "get_article_links E cat limit = Inr links" and "time_sleep sl = Inr ()"
  shows "crawl_today E cat today_kst limit sl =
           Inr (List.map_filter
                  (\<lambda>u. case visit E (case today_kst of None \<Rightarrow> now_kst E | Some t \<Rightarrow> t) u of
                         Inr r \<Rightarrow> r | Inl x \<Rightarrow> None) links)"
  using assms crawl_loop_runs[OF assms(2), of E _ links "[]"]
  by (simp add: crawl_today_def bind_def)

lemma crawl_today_fetch_fails:
  "fetch E cat = Inl e \<Longrightarrow> crawl_today E cat today_kst limit sl = Inl e"
  by (simp add: crawl_today_def get_article_links_def bind_def)

lemma respond_date_ok:
  assumes "if truthy (date_str c) then parse_date E (date_str c) = Inr t \<and> today_kst = Some t
           else today_kst = None"
  shows "respond E c =
           bind (crawl_any E (category_url c) today_kst
                   (parse_limit E (limit_str c)) (parse_sleep E (sleep_str c))) (\<lambda>items.
             Inr \<lparr>status_code = 200,
                  content = OkBody (date_of (case today_kst of None \<Rightarrow> now_kst_reply E
                                             | Some t \<Rightarrow> t))
                              (length items) items\<rparr>)"
  using assms by (auto simp: respond_def split: if_splits)

text \<open>
  The pause of the loop is outside its \<open>try\<close>. When the sleep parameter does not read
  as NaN the pause is granted: the handler then answers 200 with what the visits of all
  discovered links give, whatever pages failed.
\<close>

lemma ai_today_skips_failures:
  assumes "collect_params E req = Inr c" and "category_url c = JStr cat"
    and d: "if truthy (date_str c) then parse_date E (date_str c) = Inr t \<and> ref = Some t
            else ref = None"
    and l: "get_article_links E cat (parse_limit E (limit_str c)) = Inr found"
    and n: "parse_sleep E (sleep_str c) \<noteq> NaN"
    and i: "items = List.map_filter
                    (\<lambda>u. case visit E (case ref of None \<Rightarrow> now_kst E | Some t \<Rightarrow> t) u of
                           Inr r \<Rightarrow> r | Inl x \<Rightarrow> None) found"
  shows "ai_today E req =
          \<lparr>status_code = 200,
           content = OkBody (date_of (case ref of None \<Rightarrow> now_kst_reply E | Some t \<Rightarrow> t))
                       (length items) items\<rparr>"
proof -
  from parse_sleep_ok[OF n] have s: "time_sleep (parse_sleep E (sleep_str c)) = Inr ()" .
  from assms(2) i crawl_today_runs[OF l s, of ref]
  have "crawl_any E (category_url c) ref (parse_limit E (limit_str c))
          (parse_sleep E (sleep_str c)) = Inr items"
    by (simp add: crawl_any_def)
  with assms(1) respond_date_ok[OF d] show ?thesis
    by (simp add: ai_today_def bind_def)
qed

text \<open>When the fetch of the category page raises, the handler answers 500.\<close>

lemma ai_today_category_fails:
  assumes "collect_params E req = Inr c" and "category_url c = JStr cat"
    and d: "if truthy (date_str c) then parse_date E (date_str c) = Inr t \<and> ref = Some t
            else ref = None"
    and f: "fetch E cat = Inl e"
  shows "ai_today E req = \<lparr>status_code = 500, content = ErrorBody ''internal_error'' (Some e)\<rparr>"
proof -
  from assms(2) f
  have "crawl_any E (category_url c) ref (parse_limit E (limit_str c))
          (parse_sleep E (sleep_str c)) = Inl e"
    by (simp add: crawl_any_def crawl_today_fetch_fails)
  with assms(1) respond_date_ok[OF d] show ?thesis
    by (simp add: ai_today_def bind_def)
qed


section \<open>The two timestamps of an article\<close>

text \<open>
  Claim C9. In an article that \<open>parse_article\<close> returns, the two timestamps are both
  absent or both present; when present they are the conversions to UTC and to Seoul
  time of the one date the resolver returned, and they denote the same instant, the
  first with offset zero and the second with the Seoul offset at that instant.
\<close>

theorem published_utc_kst_same_instant:
  assumes "parse_article E u = Inr art"
  shows "(published_utc art = None \<longleftrightarrow> published_kst art = None)
         \<and> (\<forall>a b. published_utc art = Some a \<and> published_kst art = Some b \<longrightarrow>
               (\<exists>text d t. fetch E u = Inr text
                  \<and> published_dt E (html_parse E text) = Inr (Some d)
                  \<and> astimezone E d UTC = Inr a \<and> astimezone E d KST = Inr b
                  \<and> instant a = Some t \<and> instant b = Some t
                  \<and> utcoff a = Some 0 \<and> utcoff b = Some (kst_offset E t)))"
proof -
  from parse_article_fields[OF assms] obtain html dt where
    f: "fetch E u = Inr html" and p: "published_dt E (html_parse E html) = Inr dt"
    and iu: "iso_in E dt UTC = Inr (published_utc art)"
    and ik: "iso_in E dt KST = Inr (published_kst art)" by blast
  have both: "published_utc art = None \<longleftrightarrow> published_kst art = None"
  proof (cases dt)
    case None
    with iu ik show ?thesis by (simp add: iso_in_def)
  next
    case (Some d)
    with iu ik show ?thesis by (auto simp: iso_in_def dest!: bind_Inr)
  qed
  have same: "\<exists>text d t. fetch E u = Inr text
                  \<and> published_dt E (html_parse E text) = Inr (Some d)
                  \<and> astimezone E d UTC = Inr a \<and> astimezone E d KST = Inr b
                  \<and> instant a = Some t \<and> instant b = Some t
                  \<and> utcoff a = Some 0 \<and> utcoff b = Some (kst_offset E t)"
    if ab: "published_utc art = Some a \<and> published_kst art = Some b" for a b
  proof -
    from iu ab iso_in_Some[of E dt UTC a] obtain d where
      d: "dt = Some d" and au: "astimezone E d UTC = Inr a" by auto
    from ik ab d iso_in_Some[of E dt KST b] have ak: "astimezone E d KST = Inr b" by auto
    from astimezone_result[OF au] astimezone_result[OF ak] obtain off where
      "instant a = Some (wall d - off)" "instant b = Some (wall d - off)"
      "utcoff a = Some 0" "utcoff b = Some (kst_offset E (wall d - off))"
      by (auto simp: instant_def)
    with f p d au ak show ?thesis by blast
  qed
  from both same show ?thesis by blast
qed

text \<open>The article of \<open>alpha_page\<close>: 01:00 UTC and 10:00 in Seoul, one instant.\<close>

theorem published_utc_kst_same_instant_witness:
  "parse_article sample_env ''https://techcrunch.com/2025/09/10/alpha/''
     = Inr \<lparr>url = ''https://techcrunch.com/2025/09/10/alpha/'', title = ''Alpha'',
            published_utc = Some \<lparr>wall = 63893062800000000, utcoff = Some 0\<rparr>,
            published_kst = Some \<lparr>wall = 63893095200000000, utcoff = Some 32400000000\<rparr>,
            body = ''Body of alpha.''\<rparr>
   \<and> instant \<lparr>wall = 63893062800000000, utcoff = Some 0\<rparr>
       = instant \<lparr>wall = 63893095200000000, utcoff = Some 32400000000\<rparr>"
proof -
  let ?a = "\<lparr>wall = 63893062800000000, utcoff = Some 0\<rparr>"
  let ?b = "\<lparr>wall = 63893095200000000, utcoff = Some 32400000000\<rparr>"
  let ?art = "\<lparr>url = ''https://techcrunch.com/2025/09/10/alpha/'', title = ''Alpha'',
            published_utc = Some ?a, published_kst = Some ?b, body = ''Body of alpha.''\<rparr>"
  have p: "parse_article sample_env ''https://techcrunch.com/2025/09/10/alpha/'' = Inr ?art"
    by code_simp
  from published_utc_kst_same_instant[OF p]
  have "\<exists>t. instant ?a = Some t \<and> instant ?b = Some t" by simp blast
  with p show ?thesis by auto
qed

section \<open>Malformed limit and sleep parameters\<close>

lemma respond_400:
  "respond E c = Inr r \<Longrightarrow> status_code r = 400
   \<Longrightarrow> truthy (date_str c) \<and> isl (parse_date E (date_str c))"
  by (auto simp: respond_def bind_def bad_request_def split: if_splits sum.splits)

text \<open>
  Claim C10. When the limit parameter is present but \<open>int\<close> refuses it, the handler
  goes on with the limit 40, and its response is the one it gives when no limit is
  sent; when the sleep parameter is present but \<open>float\<close> refuses it, the handler goes
  on with 0.7 seconds, and its response is the one it gives when no sleep is sent.
  A response 400 comes only from a date that is present and cannot be read.
\<close>

theorem malformed_limit_sleep_defaults:
  "(limit_str c = Some l \<and> py_int E l = Inl e \<longrightarrow>
      parse_limit E (limit_str c) = 40 \<and> respond E c = respond E (c\<lparr>limit_str := None\<rparr>))
   \<and> (sleep_str c = Some s \<and> py_float E s = Inl e' \<longrightarrow>
      parse_sleep E (sleep_str c) = Finite 0.7 \<and> respond E c = respond E (c\<lparr>sleep_str := None\<rparr>))
   \<and> (\<forall>r. respond E c = Inr r \<and> status_code r = 400 \<longrightarrow>
         truthy (date_str c) \<and> isl (parse_date E (date_str c)))"
proof (intro conjI impI allI)
  assume h: "limit_str c = Some l \<and> py_int E l = Inl e"
  then have pl: "parse_limit E (limit_str c) = 40" by (simp add: parse_limit_def)
  have "parse_limit E None = 40" by (simp add: parse_limit_def)
  with pl show "parse_limit E (limit_str c) = 40"
    and "respond E c = respond E (c\<lparr>limit_str := None\<rparr>)"
    by (simp_all add: respond_def split: sum.splits)
next
  assume h: "sleep_str c = Some s \<and> py_float E s = Inl e'"
  then have ps: "parse_sleep E (sleep_str c) = Finite 0.7" by (simp add: parse_sleep_def)
  have "parse_sleep E None = Finite 0.7" by (simp add: parse_sleep_def)
  with ps show "parse_sleep E (sleep_str c) = Finite 0.7"
    and "respond E c = respond E (c\<lparr>sleep_str := None\<rparr>)"
    by (simp_all add: respond_def split: sum.splits)
next
  fix r assume "respond E c = Inr r \<and> status_code r = 400"
  then show "truthy (date_str c)" "isl (parse_date E (date_str c))"
    using respond_400 by blast+
qed

text \<open>
  The request \<open>?limit=abc&sleep=fast\<close> on the example environment: both parameters
  are refused, the defaults are used and the response is 200.
\<close>

theorem malformed_limit_sleep_defaults_witness:
  "collect_params sample_env (get_request [(''limit'', ''abc''), (''sleep'', ''fast'')])
     = Inr \<lparr>date_str = JNull, limit_str = Some ''abc'', sleep_str = Some ''fast'',
             category_url = JStr CATEGORY_URL\<rparr>
   \<and> py_int sample_env ''abc'' = Inl ValueError
   \<and> py_float sample_env ''fast'' = Inl ValueError
   \<and> parse_limit sample_env (Some ''abc'') = 40
   \<and> parse_sleep sample_env (Some ''fast'') = Finite 0.7
   \<and> status_code (ai_today sample_env (get_request [(''limit'', ''abc''), (''sleep'', ''fast'')])) = 200
   \<and> respond sample_env \<lparr>date_str = JStr ''2025-13-40'', limit_str = None, sleep_str = None,
                           category_url = JStr CATEGORY_URL\<rparr> = Inr bad_request
   \<and> status_code bad_request = 400
   \<and> isl (parse_date sample_env (JStr ''2025-13-40''))"
proof -
  define c where "c = \<lparr>date_str = JNull, limit_str = Some ''abc'', sleep_str = Some ''fast'',
             category_url = JStr CATEGORY_URL\<rparr>"
  define c' where "c' = \<lparr>date_str = JStr ''2025-13-40'', limit_str = None, sleep_str = None,
                          category_url = JStr CATEGORY_URL\<rparr>"
  have cp: "collect_params sample_env (get_request [(''limit'', ''abc''), (''sleep'', ''fast'')]) = Inr c"
    unfolding c_def by code_simp
  have i: "py_int sample_env ''abc'' = Inl ValueError" by code_simp
  have f: "py_float sample_env ''fast'' = Inl ValueError" by code_simp
  have s: "status_code (ai_today sample_env (get_request [(''limit'', ''abc''), (''sleep'', ''fast'')])) = 200"
    by code_simp
  have r: "respond sample_env c' = Inr bad_request" unfolding c'_def by code_simp
  have b: "status_code bad_request = 400" by (simp add: bad_request_def)
  from malformed_limit_sleep_defaults[of c "''abc''" sample_env ValueError "''fast''" ValueError] i f
  have d: "parse_limit sample_env (Some ''abc'') = 40
           \<and> parse_sleep sample_env (Some ''fast'') = Finite 0.7"
    by (simp add: c_def)
  from malformed_limit_sleep_defaults[of c' _ sample_env] r b
  have "isl (parse_date sample_env (date_str c'))" by blast
  then have "isl (parse_date sample_env (JStr ''2025-13-40''))" by (simp add: c'_def)
  with cp i f s r b d show ?thesis unfolding c_def c'_def by simp
qed

end
